theory Spec2Isabelle
  imports Main "HOL-Library.FSet" "HOL-Library.Finite_Map"
begin

section \<open>Scope sets\<close>

text \<open>
  Modelled from the spec: the package \<^verbatim>\<open>util\<close> with its type \<^verbatim>\<open>StringSet\<close>, which every
  function below uses, is not among the sources. A Scope Set is an unordered,
  deduplicated set of names with \<^verbatim>\<open>union\<close>, \<^verbatim>\<open>intersect\<close>, \<^verbatim>\<open>difference\<close>, \<^verbatim>\<open>isSuperset\<close>,
  \<^verbatim>\<open>contains\<close> and a length; all operations are pure. The sets of a program are finite.
\<close>

type_synonym StringSet = "string fset"

definition NewStringSet :: "string list \<Rightarrow> StringSet" where
  "NewStringSet strs = fset_of_list strs"

definition StringSet_Len :: "StringSet \<Rightarrow> nat" where
  "StringSet_Len s = fcard s"

definition StringSet_Contains :: "StringSet \<Rightarrow> string \<Rightarrow> bool" where
  "StringSet_Contains s x = (x |\<in>| s)"

definition StringSet_IsSuperset :: "StringSet \<Rightarrow> StringSet \<Rightarrow> bool" where
  "StringSet_IsSuperset s other = (other |\<subseteq>| s)"

definition StringSet_Union :: "StringSet \<Rightarrow> StringSet \<Rightarrow> StringSet" where
  "StringSet_Union s other = s |\<union>| other"

definition StringSet_Intersect :: "StringSet \<Rightarrow> StringSet \<Rightarrow> StringSet" where
  "StringSet_Intersect s other = s |\<inter>| other"

definition StringSet_Difference :: "StringSet \<Rightarrow> StringSet \<Rightarrow> StringSet" where
  "StringSet_Difference s other = s |-| other"

section \<open>Records of the data package\<close>

text \<open>
  The struct \<^verbatim>\<open>Client\<close> of \<^verbatim>\<open>data/client.go\<close>. The time stamps \<^verbatim>\<open>CreatedAt\<close> and
  \<^verbatim>\<open>UpdatedAt\<close> play no part in any function modelled here and are left out.
\<close>

text \<open>
  Modelled from the spec: the field \<^verbatim>\<open>ScopeWhitelist\<close>, which the handlers of the web
  package read from a client, is missing from the struct as \<^verbatim>\<open>data/client.go\<close> declares
  it; it is the subset of the client's scope that needs no consent of the account.
\<close>

record Client =
  UUID :: string
  Name :: string
  Secret :: string
  ScopeProvidedMap :: "(string, string) fmap"
  ScopeWhitelist :: StringSet
  RedirectURIs :: StringSet

text \<open>A row of the table \<^verbatim>\<open>ClientScopeProvided (clientUUID, name, description)\<close>.\<close>

record ScopeProvidedRow =
  spClientUUID :: string
  spName :: string
  spDescription :: string

text \<open>
  Modelled from the spec: the structs \<^verbatim>\<open>ClientApproval\<close>, \<^verbatim>\<open>GrantRequest\<close>,
  \<^verbatim>\<open>AccessToken\<close>, \<^verbatim>\<open>RefreshToken\<close> and \<^verbatim>\<open>Account\<close> are declared outside the sources. The
  records have the fields the spec lists for them, under the names by which the functions
  below set and read them. A \<^verbatim>\<open>sql.NullString\<close> is an option; a time stamp is an integer
  (a count of clock ticks). Of an account the protocol core needs its id, its login name
  and the capability to verify a password (\<^verbatim>\<open>account.VerifyPassword\<close>), kept as a
  predicate on passwords.
\<close>

record ClientApproval =
  ClientUUID :: string
  AccountUUID :: string
  Scope :: StringSet

record GrantRequest =
  Token :: string
  GrantType :: string
  State :: string
  Code :: "string option"
  ScopeRequested :: StringSet
  RedirectURI :: string
  ClientUUID :: string
  AccountUUID :: "string option"

record AccessToken =
  Token :: string
  Scope :: StringSet
  Expires :: int
  ClientUUID :: string
  AccountUUID :: "string option"

record RefreshToken =
  Token :: string
  Scope :: StringSet
  ClientUUID :: string
  AccountUUID :: string

record Account =
  UUID :: string
  Login :: string
  VerifyPassword :: "string \<Rightarrow> bool"

section \<open>The database\<close>

text \<open>
  The package-level \<^verbatim>\<open>database\<close> handle is state that every function reads and some
  update; it is passed explicitly. A table is the list of its rows, and a query for one
  row takes the first match, as \<^verbatim>\<open>sqlx\<close>'s \<^verbatim>\<open>Get\<close> does. Failures of the infrastructure
  (a lost connection), on which the source panics, are not part of the model.
\<close>

record Database =
  Clients :: "Client list"
  ClientScopeProvided :: "ScopeProvidedRow list"
  ClientApprovals :: "ClientApproval list"
  GrantRequests :: "GrantRequest list"
  AccessTokens :: "AccessToken list"
  RefreshTokens :: "RefreshToken list"
  Accounts :: "Account list"

section \<open>data/client.go\<close>

text \<open>
  \<^verbatim>\<open>listClientUUIDs\<close>: the UUIDs of the clients currently in the database.
\<close>

definition listClientUUIDs :: "Database \<Rightarrow> StringSet" where
  "listClientUUIDs db = NewStringSet (map Client.UUID (Clients db))"

text \<open>
  \<^verbatim>\<open>getClient\<close>: the row selected by the query (here the predicate \<open>q\<close> on rows, applied to
  the parameter), with a fresh \<^verbatim>\<open>ScopeProvidedMap\<close> that the loop fills from the rows of
  \<^verbatim>\<open>ClientScopeProvided\<close> with this client's UUID, a later row overwriting an earlier one
  of the same name.
\<close>

definition getClient :: "Database \<Rightarrow> (string \<Rightarrow> Client \<Rightarrow> bool) \<Rightarrow> string \<Rightarrow> Client option" where
  "getClient db q parameter =
     (case find (q parameter) (Clients db) of
        None \<Rightarrow> None
      | Some client \<Rightarrow>
          let scope = filter (\<lambda>s. spClientUUID s = Client.UUID client) (ClientScopeProvided db)
          in Some (client\<lparr>ScopeProvidedMap :=
                fold (\<lambda>s m. fmupd (spName s) (spDescription s) m) scope fmempty\<rparr>))"

text \<open>
  \<^verbatim>\<open>GetClient\<close> and \<^verbatim>\<open>GetClientByName\<close>: the queries select the client by its UUID and by
  its name.
\<close>

definition GetClient :: "Database \<Rightarrow> string \<Rightarrow> Client option" where
  "GetClient db uuid = getClient db (\<lambda>p c. Client.UUID c = p) uuid"

definition GetClientByName :: "Database \<Rightarrow> string \<Rightarrow> Client option" where
  "GetClientByName db name = getClient db (\<lambda>p c. Client.Name c = p) name"

text \<open>
  \<^verbatim>\<open>CheckScope\<close>: whether a scope exists, searching the scopes provided by all registered
  clients.
\<close>

definition CheckScope :: "Database \<Rightarrow> StringSet \<Rightarrow> bool" where
  "CheckScope db scope =
     (if StringSet_Len scope = 0 then False
      else
        let check = map spName (ClientScopeProvided db);
            global = NewStringSet check
        in StringSet_IsSuperset global scope)"

text \<open>\<^verbatim>\<open>Client.ScopeProvided\<close>: the keys of the client's \<^verbatim>\<open>ScopeProvidedMap\<close> as a set.\<close>

definition ScopeProvided :: "Client \<Rightarrow> StringSet" where
  "ScopeProvided client = fmdom (ScopeProvidedMap client)"

text \<open>
  \<^verbatim>\<open>Client.ApprovalForAccount\<close>: the approval of this client by the account, if there is
  one.
\<close>

definition ApprovalForAccount :: "Database \<Rightarrow> Client \<Rightarrow> string \<Rightarrow> ClientApproval option" where
  "ApprovalForAccount db client accountUUID =
     find (\<lambda>a. ClientApproval.ClientUUID a = Client.UUID client \<and>
                ClientApproval.AccountUUID a = accountUUID) (ClientApprovals db)"

text \<open>
  Modelled from the spec: \<^verbatim>\<open>ClientApproval.Create\<close> and \<^verbatim>\<open>ClientApproval.Update\<close> are not
  among the sources. An approval is a durable record keyed by the pair (client id,
  account id), at most one per pair. Create is create-if-absent on the store (a conflict
  is an error), Update is update-in-place of the record with the approval's key. Both
  return the error (\<open>None\<close> is \<^verbatim>\<open>nil\<close>) and the database after the call.
\<close>

definition same_approval_key :: "ClientApproval \<Rightarrow> ClientApproval \<Rightarrow> bool" where
  "same_approval_key a b =
     (ClientApproval.ClientUUID a = ClientApproval.ClientUUID b \<and>
      ClientApproval.AccountUUID a = ClientApproval.AccountUUID b)"

definition ClientApproval_Create :: "Database \<Rightarrow> ClientApproval \<Rightarrow> string option \<times> Database" where
  "ClientApproval_Create db approval =
     (if find (same_approval_key approval) (ClientApprovals db) \<noteq> None
      then (Some ''duplicate key'', db)
      else (None, db\<lparr>ClientApprovals := ClientApprovals db @ [approval]\<rparr>))"

definition ClientApproval_Update :: "Database \<Rightarrow> ClientApproval \<Rightarrow> string option \<times> Database" where
  "ClientApproval_Update db approval =
     (None, db\<lparr>ClientApprovals :=
        map (\<lambda>a. if same_approval_key approval a then approval else a) (ClientApprovals db)\<rparr>)"

text \<open>
  \<^verbatim>\<open>Client.Approve\<close>: creates a new approval or extends an existing one. The result is
  the returned error and the database after the call.
\<close>

definition Client_Approve :: "Database \<Rightarrow> Client \<Rightarrow> string \<Rightarrow> StringSet \<Rightarrow> string option \<times> Database" where
  "Client_Approve db client accountUUID scope =
     (if \<not> CheckScope db scope then (Some ''Invalid scope'', db)
      else
        case ApprovalForAccount db client accountUUID of
          Some approval \<Rightarrow>
            if \<not> StringSet_IsSuperset (ClientApproval.Scope approval) scope
            then ClientApproval_Update db
                   (approval\<lparr>ClientApproval.Scope :=
                      StringSet_Union (ClientApproval.Scope approval) scope\<rparr>)
            else (None, db)
        | None \<Rightarrow>
            ClientApproval_Create db
              \<lparr>ClientApproval.ClientUUID = Client.UUID client,
               ClientApproval.AccountUUID = accountUUID,
               ClientApproval.Scope = scope\<rparr>)"

section \<open>Store operations the handlers call\<close>

text \<open>
  The files of the data package that hold grant requests, access tokens, refresh tokens
  and accounts are not among the sources; only their callers are. The spec gives the
  contract of the store: get-by-key and get-by-secondary-key (token string, exchange
  code, login name), create-if-absent with a conflict surfaced as an error,
  update-in-place, delete-by-key, and "not found" as a distinguished result.
\<close>

text \<open>
  Modelled from the spec: \<^verbatim>\<open>GetGrantRequest\<close> and \<^verbatim>\<open>GetGrantRequestByCode\<close>, the lookup of
  a grant request by its token (its key) and by its exchange code.
\<close>

definition GetGrantRequest :: "Database \<Rightarrow> string \<Rightarrow> GrantRequest option" where
  "GetGrantRequest db token = find (\<lambda>g. GrantRequest.Token g = token) (GrantRequests db)"

definition GetGrantRequestByCode :: "Database \<Rightarrow> string \<Rightarrow> GrantRequest option" where
  "GetGrantRequestByCode db code = find (\<lambda>g. GrantRequest.Code g = Some code) (GrantRequests db)"

text \<open>
  Modelled from the spec: \<^verbatim>\<open>GrantRequest.Update\<close> and \<^verbatim>\<open>GrantRequest.Delete\<close>,
  update-in-place and delete-by-key of the request with this token. Both return the
  error (\<open>None\<close> is \<^verbatim>\<open>nil\<close>) and the database after the call.
\<close>

definition GrantRequest_Update :: "Database \<Rightarrow> GrantRequest \<Rightarrow> string option \<times> Database" where
  "GrantRequest_Update db request =
     (None, db\<lparr>GrantRequests :=
        map (\<lambda>g. if GrantRequest.Token g = GrantRequest.Token request then request else g)
          (GrantRequests db)\<rparr>)"

definition GrantRequest_Delete :: "Database \<Rightarrow> GrantRequest \<Rightarrow> string option \<times> Database" where
  "GrantRequest_Delete db request =
     (None, db\<lparr>GrantRequests :=
        filter (\<lambda>g. GrantRequest.Token g \<noteq> GrantRequest.Token request) (GrantRequests db)\<rparr>)"

text \<open>
  Modelled from the spec: \<^verbatim>\<open>request.Client()\<close>, the client a grant request belongs to;
  \<open>None\<close> when the request names no registered client.
\<close>

definition GrantRequest_Client :: "Database \<Rightarrow> GrantRequest \<Rightarrow> Client option" where
  "GrantRequest_Client db request = GetClient db (GrantRequest.ClientUUID request)"

text \<open>
  Modelled from the spec: \<^verbatim>\<open>request.IsApproved()\<close> is true iff (request.scope - client.whitelist)
  is empty, or the approval ledger entry for (client, account) is a superset of that
  difference. It is evaluated on demand against the database; \<open>None\<close> when the request has
  no client.
\<close>

definition GrantRequest_IsApproved :: "Database \<Rightarrow> GrantRequest \<Rightarrow> bool option" where
  "GrantRequest_IsApproved db request =
     (case GrantRequest_Client db request of
        None \<Rightarrow> None
      | Some client \<Rightarrow>
          let required = StringSet_Difference (ScopeRequested request) (ScopeWhitelist client)
          in if StringSet_Len required = 0 then Some True
             else
               (case GrantRequest.AccountUUID request of
                  None \<Rightarrow> Some False
                | Some account \<Rightarrow>
                    (case ApprovalForAccount db client account of
                       None \<Rightarrow> Some False
                     | Some approval \<Rightarrow>
                         Some (StringSet_IsSuperset (ClientApproval.Scope approval) required))))"

text \<open>
  Modelled from the spec: \<^verbatim>\<open>AccessToken.Create\<close>. The callers in the web package leave
  \<^verbatim>\<open>Expires\<close> unset, so the expiry time stamp of a new token is assigned on creation; it
  is the parameter \<open>expires\<close>. A token string that is already stored is a persistence
  conflict, surfaced as an error and not retried.
\<close>

definition AccessToken_Create :: "Database \<Rightarrow> int \<Rightarrow> AccessToken \<Rightarrow> string option \<times> Database" where
  "AccessToken_Create db expires access =
     (if find (\<lambda>t. AccessToken.Token t = AccessToken.Token access) (AccessTokens db) \<noteq> None
      then (Some ''duplicate key'', db)
      else (None, db\<lparr>AccessTokens := AccessTokens db @ [access\<lparr>Expires := expires\<rparr>]\<rparr>))"

text \<open>
  Modelled from the spec: \<^verbatim>\<open>GetAccessToken\<close>, the read path. A token retrieved at or after
  its expiry time stamp is treated as nonexistent; \<open>now\<close> is the time of the lookup.
\<close>

definition GetAccessToken :: "Database \<Rightarrow> int \<Rightarrow> string \<Rightarrow> AccessToken option" where
  "GetAccessToken db now token =
     (case find (\<lambda>t. AccessToken.Token t = token) (AccessTokens db) of
        None \<Rightarrow> None
      | Some tok \<Rightarrow> if Expires tok \<le> now then None else Some tok)"

text \<open>
  Modelled from the spec: \<^verbatim>\<open>GetRefreshToken\<close> and \<^verbatim>\<open>RefreshToken.Delete\<close>, get-by-key and
  delete-by-key of a refresh token; a refresh token does not expire.
\<close>

definition GetRefreshToken :: "Database \<Rightarrow> string \<Rightarrow> RefreshToken option" where
  "GetRefreshToken db token = find (\<lambda>t. RefreshToken.Token t = token) (RefreshTokens db)"

definition RefreshToken_Delete :: "Database \<Rightarrow> RefreshToken \<Rightarrow> string option \<times> Database" where
  "RefreshToken_Delete db refresh =
     (None, db\<lparr>RefreshTokens :=
        filter (\<lambda>t. RefreshToken.Token t \<noteq> RefreshToken.Token refresh) (RefreshTokens db)\<rparr>)"

text \<open>Modelled from the spec: \<^verbatim>\<open>GetAccountByLogin\<close>, the lookup of an account by login name.\<close>

definition GetAccountByLogin :: "Database \<Rightarrow> string \<Rightarrow> Account option" where
  "GetAccountByLogin db login = find (\<lambda>a. Login a = login) (Accounts db)"

text \<open>
  Modelled from the spec: \<^verbatim>\<open>request.ExchangeCodeForTokens()\<close> mints one access token and
  one refresh token scoped to the request's scope and bound to the request's account and
  client, deletes the grant request (the code is single-use) and returns both token
  strings. \<open>rndAccess\<close> and \<open>rndRefresh\<close> are the strings the random source yields. A refresh
  token has an owning account, so a request without one cannot be exchanged; a token
  string that is already stored is a persistence conflict. The spec does not say what a
  failed exchange leaves behind: the model leaves the database as it was.
\<close>

definition ExchangeCodeForTokens ::
  "Database \<Rightarrow> int \<Rightarrow> string \<Rightarrow> string \<Rightarrow> GrantRequest \<Rightarrow> (string + string \<times> string) \<times> Database" where
  "ExchangeCodeForTokens db expires rndAccess rndRefresh request =
     (case GrantRequest.AccountUUID request of
        None \<Rightarrow> (Inl ''grant request is not authenticated'', db)
      | Some account \<Rightarrow>
          if find (\<lambda>t. AccessToken.Token t = rndAccess) (AccessTokens db) \<noteq> None \<or>
             find (\<lambda>t. RefreshToken.Token t = rndRefresh) (RefreshTokens db) \<noteq> None
          then (Inl ''duplicate key'', db)
          else
            (Inr (rndAccess, rndRefresh),
             db\<lparr>AccessTokens := AccessTokens db @
                   [\<lparr>AccessToken.Token = rndAccess,
                     AccessToken.Scope = ScopeRequested request,
                     Expires = expires,
                     AccessToken.ClientUUID = GrantRequest.ClientUUID request,
                     AccessToken.AccountUUID = Some account\<rparr>],
                RefreshTokens := RefreshTokens db @
                   [\<lparr>RefreshToken.Token = rndRefresh,
                     RefreshToken.Scope = ScopeRequested request,
                     RefreshToken.ClientUUID = GrantRequest.ClientUUID request,
                     RefreshToken.AccountUUID = account\<rparr>],
                GrantRequests :=
                  filter (\<lambda>g. GrantRequest.Token g \<noteq> GrantRequest.Token request)
                    (GrantRequests db)\<rparr>))"

section \<open>The web package: bearer authentication\<close>

text \<open>
  What a handler writes to the response: an error printed as JSON or HTML with its status
  code, a redirect, the JSON of a token response, or no response because the handler
  panicked. A redirect keeps the parts the URL is formatted from (redirect URI, scope,
  state, and the code or access token); the scope of a response is kept as the set whose
  names the wire string lists (a Go map is iterated in no fixed order).
\<close>

record tokenResponse =
  token_type :: string
  scope :: StringSet
  access_token :: string
  refresh_token :: "string option"

datatype Response =
    ErrorJSON string nat
  | ErrorHTML string nat
  | RedirectCode string StringSet string string
  | RedirectToken string StringSet string string
  | TokenJSON tokenResponse
  | Panic

record OAuthInfo =
  Match :: StringSet
  Token :: AccessToken

text \<open>
  A request as the bearer handler sees it: its identity (the pointer that keys the map)
  and the value of its \<^verbatim>\<open>Authorization\<close> header (empty when the header is absent).
\<close>

record Request =
  ident :: nat
  Authorization :: string

text \<open>The package-level store \<^verbatim>\<open>tokens.store\<close>, a map from requests to their info.\<close>

type_synonym TokenStore = "nat \<rightharpoonup> OAuthInfo"

definition OAuthToken :: "TokenStore \<Rightarrow> Request \<Rightarrow> OAuthInfo option" where
  "OAuthToken store r = store (ident r)"

record oauth =
  Permissive :: bool
  scope :: StringSet

text \<open>
  The wrapped handler is any function that reads and changes the store and ends with a
  response or with a panic.
\<close>

type_synonym Handler = "TokenStore \<Rightarrow> Request \<Rightarrow> Response \<times> TokenStore"

definition OAuthHandler :: "string list \<Rightarrow> oauth" where
  "OAuthHandler scope' = \<lparr>Permissive = False, oauth.scope = NewStringSet scope'\<rparr>"

definition OAuthHandlerPermissive :: oauth where
  "OAuthHandlerPermissive = \<lparr>Permissive = True, oauth.scope = NewStringSet []\<rparr>"

definition strings_HasPrefix :: "string \<Rightarrow> string \<Rightarrow> bool" where
  "strings_HasPrefix s pre = (take (length pre) s = pre)"

definition strings_Trim :: "string \<Rightarrow> char \<Rightarrow> string" where
  "strings_Trim s c = rev (dropWhile (\<lambda>x. x = c) (rev (dropWhile (\<lambda>x. x = c) s)))"

text \<open>
  \<^verbatim>\<open>strings.Split(s, " ")\<close>: the pieces of \<open>s\<close> between separators, one more than there are
  separators; never the empty list.
\<close>

fun strings_Split :: "string \<Rightarrow> char \<Rightarrow> string list" where
  "strings_Split [] c = [[]]"
| "strings_Split (x # xs) c =
     (if x = c then [] # strings_Split xs c
      else (case strings_Split xs c of
              w # ws \<Rightarrow> (x # w) # ws
            | [] \<Rightarrow> [[x]]))"

text \<open>
  The function deferred in \<^verbatim>\<open>ServeHTTP\<close> right after the insertion. Go runs it when
  \<^verbatim>\<open>ServeHTTP\<close> returns and when the wrapped handler panics, before the panic leaves
  \<^verbatim>\<open>ServeHTTP\<close>.
\<close>

definition deferred_delete :: "Request \<Rightarrow> Response \<times> TokenStore \<Rightarrow> Response \<times> TokenStore" where
  "deferred_delete r res = (fst res, (snd res)(ident r := None))"

text \<open>
  \<^verbatim>\<open>oauth.ServeHTTP\<close>. The result is the response and the store when the call is over. The
  lock taken around each access of the store makes each access atomic; the model follows
  one request.
\<close>

definition ServeHTTP ::
  "oauth \<Rightarrow> Handler \<Rightarrow> Database \<Rightarrow> int \<Rightarrow> TokenStore \<Rightarrow> Request \<Rightarrow> Response \<times> TokenStore" where
  "ServeHTTP o' handler db now store r =
     (let tokenStr = Authorization r in
      if tokenStr \<noteq> [] \<and> strings_HasPrefix tokenStr ''Bearer '' then
        (let tokenStr = strings_Trim (drop 6 tokenStr) CHR '' '' in
         case GetAccessToken db now tokenStr of
           Some token \<Rightarrow>
             let match = AccessToken.Scope token;
                 match = (if \<not> Permissive o' then StringSet_Intersect match (oauth.scope o')
                          else match)
             in if \<not> Permissive o' \<and> StringSet_Len match < 1
                then (ErrorJSON ''Insufficient scope'' 401, store)
                else
                  deferred_delete r
                    (handler (store(ident r \<mapsto> \<lparr>Match = match, Token = token\<rparr>)) r)
         | None \<Rightarrow>
             if \<not> Permissive o' then (ErrorJSON ''Invalid bearer token'' 401, store)
             else handler store r)
      else if \<not> Permissive o' then (ErrorJSON ''No bearer token'' 401, store)
      else handler store r)"

section \<open>The web package: consent\<close>

text \<open>
  \<^verbatim>\<open>finishCodeRequest\<close>: stores a fresh code (\<open>rnd\<close>, from the random source) on the request
  and redirects with it.
\<close>

definition finishCodeRequest :: "Database \<Rightarrow> string \<Rightarrow> GrantRequest \<Rightarrow> Response \<times> Database" where
  "finishCodeRequest db rnd request =
     (let request = request\<lparr>Code := Some rnd\<rparr> in
      (case GrantRequest_Update db request of
         (Some err, db') \<Rightarrow> (Panic, db')
       | (None, db') \<Rightarrow>
           (RedirectCode (RedirectURI request) (ScopeRequested request) (State request) rnd,
            db')))"

text \<open>
  \<^verbatim>\<open>finishImplicitRequest\<close>: deletes the request, then creates an access token for it and
  redirects with the token.
\<close>

definition finishImplicitRequest ::
  "Database \<Rightarrow> int \<Rightarrow> string \<Rightarrow> GrantRequest \<Rightarrow> Response \<times> Database" where
  "finishImplicitRequest db expires rnd request =
     (case GrantRequest_Delete db request of
        (Some err, db') \<Rightarrow> (Panic, db')
      | (None, db') \<Rightarrow>
          let token = \<lparr>AccessToken.Token = rnd,
                       AccessToken.Scope = ScopeRequested request,
                       Expires = 0,
                       AccessToken.ClientUUID = GrantRequest.ClientUUID request,
                       AccessToken.AccountUUID = GrantRequest.AccountUUID request\<rparr>
          in (case AccessToken_Create db' expires token of
                (Some err, db'') \<Rightarrow> (Panic, db'')
              | (None, db'') \<Rightarrow>
                  (RedirectToken (RedirectURI request) (AccessToken.Scope token) (State request)
                     (AccessToken.Token token), db'')))"

text \<open>The form read by the handler \<^verbatim>\<open>Approve\<close>.\<close>

record ApproveForm =
  Client :: string
  RequestID :: string
  Scope :: "string list"

text \<open>
  The handler \<^verbatim>\<open>Approve\<close> of the web package: evaluates the approval an account gives to
  a client. \<open>rnd\<close> is the string the random source yields while the request is finished.
\<close>

definition web_Approve ::
  "Database \<Rightarrow> int \<Rightarrow> string \<Rightarrow> ApproveForm \<Rightarrow> Response \<times> Database" where
  "web_Approve db expires rnd param =
     (case GetGrantRequest db (RequestID param) of
        None \<Rightarrow> (ErrorHTML ''Grant request does not exist'' 404, db)
      | Some request \<Rightarrow>
          (case GrantRequest.AccountUUID request of
             None \<Rightarrow> (ErrorHTML ''Grant request is not authenticated'' 401, db)
           | Some account \<Rightarrow>
               (case GrantRequest_Client db request of
                  None \<Rightarrow> (Panic, db)
                | Some client \<Rightarrow>
                    let scopeApproved = NewStringSet (ApproveForm.Scope param);
                        scopeRequired =
                          StringSet_Difference (ScopeRequested request) (ScopeWhitelist client)
                    in if \<not> StringSet_IsSuperset scopeApproved scopeRequired
                       then (ErrorHTML ''Requested scope was not approved'' 401, db)
                       else
                         (case Client_Approve db client account (ScopeRequested request) of
                            (Some err, db') \<Rightarrow> (Panic, db')
                          | (None, db') \<Rightarrow>
                              if GrantRequest_IsApproved db' request \<noteq> Some True
                              then (Panic, db')
                              else if GrantRequest.GrantType request = ''code''
                              then finishCodeRequest db' rnd request
                              else finishImplicitRequest db' expires rnd request))))"

section \<open>The web package: the token endpoint\<close>

text \<open>
  The body of a token request as \<^verbatim>\<open>Token\<close> decodes it, and the request: the pair of
  \<^verbatim>\<open>r.BasicAuth()\<close> when the header carries one, and the decoded body or the error of
  the decoder.
\<close>

record TokenBody =
  GrantType :: string
  ClientId :: string
  ClientSecret :: string
  Scope :: string
  Code :: string
  RefreshToken :: string
  Username :: string
  Password :: string

record TokenRequest =
  BasicAuth :: "(string \<times> string) option"
  Body :: "string + TokenBody"

text \<open>
  The four cases of the switch on the grant type in \<^verbatim>\<open>Token\<close>, each with the client that
  authenticated. \<open>expires\<close> is the expiry time stamp of a token created now, \<open>rndAccess\<close>
  and \<open>rndRefresh\<close> are the strings the random source yields for the tokens.
\<close>

definition Token_authorization_code ::
  "Database \<Rightarrow> int \<Rightarrow> string \<Rightarrow> string \<Rightarrow> Client \<Rightarrow> TokenBody \<Rightarrow> Response \<times> Database" where
  "Token_authorization_code db expires rndAccess rndRefresh client body =
     (case GetGrantRequestByCode db (TokenBody.Code body) of
        None \<Rightarrow> (ErrorJSON ''Invalid grant code'' 401, db)
      | Some request \<Rightarrow>
          if GrantRequest.ClientUUID request \<noteq> Client.UUID client
          then (ErrorJSON ''Invalid grant code'' 401, snd (GrantRequest_Delete db request))
          else
            (case ExchangeCodeForTokens db expires rndAccess rndRefresh request of
               (Inl err, db') \<Rightarrow> (ErrorJSON ''Invalid grant code'' 401, db')
             | (Inr (access, refresh), db') \<Rightarrow>
                 (TokenJSON \<lparr>token_type = ''Bearer'',
                             tokenResponse.scope = ScopeRequested request,
                             access_token = access,
                             refresh_token = Some refresh\<rparr>, db')))"

definition Token_refresh_token ::
  "Database \<Rightarrow> int \<Rightarrow> string \<Rightarrow> Client \<Rightarrow> TokenBody \<Rightarrow> Response \<times> Database" where
  "Token_refresh_token db expires rndAccess client body =
     (case GetRefreshToken db (TokenBody.RefreshToken body) of
        None \<Rightarrow> (ErrorJSON ''Invalid refresh token'' 401, db)
      | Some refresh \<Rightarrow>
          if RefreshToken.ClientUUID refresh \<noteq> Client.UUID client
          then (ErrorJSON ''Invalid refresh token'' 401, snd (RefreshToken_Delete db refresh))
          else
            let access = \<lparr>AccessToken.Token = rndAccess,
                          AccessToken.Scope = RefreshToken.Scope refresh,
                          Expires = 0,
                          AccessToken.ClientUUID = RefreshToken.ClientUUID refresh,
                          AccessToken.AccountUUID = Some (RefreshToken.AccountUUID refresh)\<rparr>
            in (case AccessToken_Create db expires access of
                  (Some err, db') \<Rightarrow> (ErrorJSON err 500, db')
                | (None, db') \<Rightarrow>
                    (TokenJSON \<lparr>token_type = ''Bearer'',
                                tokenResponse.scope = RefreshToken.Scope refresh,
                                access_token = AccessToken.Token access,
                                refresh_token = None\<rparr>, db')))"

definition Token_password ::
  "Database \<Rightarrow> int \<Rightarrow> string \<Rightarrow> Client \<Rightarrow> TokenBody \<Rightarrow> Response \<times> Database" where
  "Token_password db expires rndAccess client body =
     (case GetAccountByLogin db (Username body) of
        None \<Rightarrow> (ErrorJSON ''Wrong username or password'' 401, db)
      | Some account \<Rightarrow>
          if \<not> VerifyPassword account (Password body)
          then (ErrorJSON ''Wrong username or password'' 401, db)
          else
            let scope' = NewStringSet (strings_Split (TokenBody.Scope body) CHR '' '')
            in if StringSet_Len scope' = 0 \<or> \<not> StringSet_IsSuperset (ScopeWhitelist client) scope'
               then (ErrorJSON ''Invalid scope'' 401, db)
               else
                 let access = \<lparr>AccessToken.Token = rndAccess,
                               AccessToken.Scope = scope',
                               Expires = 0,
                               AccessToken.ClientUUID = Client.UUID client,
                               AccessToken.AccountUUID = Some (Account.UUID account)\<rparr>
                 in (case AccessToken_Create db expires access of
                       (Some err, db') \<Rightarrow> (ErrorJSON err 500, db')
                     | (None, db') \<Rightarrow>
                         (TokenJSON \<lparr>token_type = ''Bearer'',
                                     tokenResponse.scope = scope',
                                     access_token = AccessToken.Token access,
                                     refresh_token = None\<rparr>, db')))"

definition Token_client_credentials ::
  "Database \<Rightarrow> int \<Rightarrow> string \<Rightarrow> Client \<Rightarrow> TokenBody \<Rightarrow> Response \<times> Database" where
  "Token_client_credentials db expires rndAccess client body =
     (let scope' = NewStringSet (strings_Split (TokenBody.Scope body) CHR '' '')
      in if StringSet_Len scope' = 0 \<or> \<not> StringSet_IsSuperset (ScopeWhitelist client) scope'
         then (ErrorJSON ''Invalid scope'' 401, db)
         else
           let access = \<lparr>AccessToken.Token = rndAccess,
                         AccessToken.Scope = scope',
                         Expires = 0,
                         AccessToken.ClientUUID = Client.UUID client,
                         AccessToken.AccountUUID = None\<rparr>
           in (case AccessToken_Create db expires access of
                 (Some err, db') \<Rightarrow> (ErrorJSON err 500, db')
               | (None, db') \<Rightarrow>
                   (TokenJSON \<lparr>token_type = ''Bearer'',
                               tokenResponse.scope = scope',
                               access_token = AccessToken.Token access,
                               refresh_token = None\<rparr>, db')))"

text \<open>
  The handler \<^verbatim>\<open>Token\<close>: decodes the body, takes the client's credentials from the header
  or else from the body, checks the client and its secret, and switches on the grant type.
\<close>

definition web_Token ::
  "Database \<Rightarrow> int \<Rightarrow> string \<Rightarrow> string \<Rightarrow> TokenRequest \<Rightarrow> Response \<times> Database" where
  "web_Token db expires rndAccess rndRefresh r =
     (case Body r of
        Inl err \<Rightarrow> (ErrorJSON err 400, db)
      | Inr body \<Rightarrow>
          let (clientId, clientSecret) =
                (case BasicAuth r of
                   Some auth \<Rightarrow> auth
                 | None \<Rightarrow> (ClientId body, ClientSecret body))
          in (case GetClientByName db clientId of
                None \<Rightarrow> (ErrorJSON ''Wrong client id or client secret'' 401, db)
              | Some client \<Rightarrow>
                  if clientSecret \<noteq> Secret client
                  then (ErrorJSON ''Wrong client id or client secret'' 401, db)
                  else if TokenBody.GrantType body = ''authorization_code''
                  then Token_authorization_code db expires rndAccess rndRefresh client body
                  else if TokenBody.GrantType body = ''refresh_token''
                  then Token_refresh_token db expires rndAccess client body
                  else if TokenBody.GrantType body = ''password''
                  then Token_password db expires rndAccess client body
                  else if TokenBody.GrantType body = ''client_credentials''
                  then Token_client_credentials db expires rndAccess client body
                  else (ErrorJSON (''Unsupported grant type '' @ TokenBody.GrantType body) 400,
                        db)))"

section \<open>Notions used in the statements\<close>

text \<open>
  The global catalog in the spec's words: the union of the provided-scope catalogs of all
  registered clients, each client read with \<^verbatim>\<open>GetClient\<close> and its catalog taken with
  \<^verbatim>\<open>ScopeProvided\<close>.
\<close>

definition global_catalog :: "Database \<Rightarrow> StringSet" where
  "global_catalog db =
     ffUnion ((\<lambda>uuid. case GetClient db uuid of
                        None \<Rightarrow> {||}
                      | Some client \<Rightarrow> ScopeProvided client) |`| listClientUUIDs db)"

text \<open>
  Referential integrity of \<^verbatim>\<open>ClientScopeProvided\<close>: the client UUID of every row is the
  UUID of a registered client.
\<close>

definition scope_rows_reference_clients :: "Database \<Rightarrow> bool" where
  "scope_rows_reference_clients db =
     list_all (\<lambda>s. spClientUUID s \<in> set (map Client.UUID (Clients db))) (ClientScopeProvided db)"

text \<open>
  The scope an account has approved for a client according to the ledger: the scope of
  the approval record, empty when there is no record.
\<close>

definition approved_scope :: "Database \<Rightarrow> Client \<Rightarrow> string \<Rightarrow> StringSet" where
  "approved_scope db client accountUUID =
     (case ApprovalForAccount db client accountUUID of
        None \<Rightarrow> {||}
      | Some approval \<Rightarrow> ClientApproval.Scope approval)"

text \<open>
  A sequence of calls of \<^verbatim>\<open>Client.Approve\<close>, each with its client, account and scope, run
  one after the other on the database, whatever each call returns.
\<close>

definition Approve_all :: "Database \<Rightarrow> (Client \<times> string \<times> StringSet) list \<Rightarrow> Database" where
  "Approve_all db calls =
     fold (\<lambda>(client, accountUUID, scope') d. snd (Client_Approve d client accountUUID scope'))
       calls db"

text \<open>
  A token request authenticates a client when its body decodes and the credentials, from
  the header or else from the body, name a registered client and carry its secret: the
  two checks \<^verbatim>\<open>Token\<close> makes before it looks at the grant type.
\<close>

definition authenticates :: "Database \<Rightarrow> TokenRequest \<Rightarrow> TokenBody \<Rightarrow> Client \<Rightarrow> bool" where
  "authenticates db r body client =
     (Body r = Inr body \<and>
      GetClientByName db
        (fst (case BasicAuth r of Some auth \<Rightarrow> auth | None \<Rightarrow> (ClientId body, ClientSecret body)))
        = Some client \<and>
      snd (case BasicAuth r of Some auth \<Rightarrow> auth | None \<Rightarrow> (ClientId body, ClientSecret body))
        = Secret client)"

text \<open>No stored access token, respectively refresh token, has the token string.\<close>

definition fresh_access :: "Database \<Rightarrow> string \<Rightarrow> bool" where
  "fresh_access db token = (find (\<lambda>t. AccessToken.Token t = token) (AccessTokens db) = None)"

definition fresh_refresh :: "Database \<Rightarrow> string \<Rightarrow> bool" where
  "fresh_refresh db token = (find (\<lambda>t. RefreshToken.Token t = token) (RefreshTokens db) = None)"

text \<open>The scope a token request asks for, as \<^verbatim>\<open>Token\<close> parses it from the body.\<close>

definition requested_scope :: "TokenBody \<Rightarrow> StringSet" where
  "requested_scope body = NewStringSet (strings_Split (TokenBody.Scope body) CHR '' '')"

text \<open>The bearer token string \<^verbatim>\<open>ServeHTTP\<close> extracts from the header of a request.\<close>

definition bearer_token :: "Request \<Rightarrow> string" where
  "bearer_token r = strings_Trim (drop 6 (Authorization r)) CHR '' ''"

definition has_bearer :: "Request \<Rightarrow> bool" where
  "has_bearer r = (Authorization r \<noteq> [] \<and> strings_HasPrefix (Authorization r) ''Bearer '')"

text \<open>A response that redirects the user agent is how the consent handlers succeed.\<close>

definition is_redirect :: "Response \<Rightarrow> bool" where
  "is_redirect response =
     (case response of
        RedirectCode uri scope' state code \<Rightarrow> True
      | RedirectToken uri scope' state token \<Rightarrow> True
      | _ \<Rightarrow> False)"

text \<open>
  A request is admitted by the bearer handler with a token when its header carries a
  bearer token that resolves to this access token and, unless the handler is permissive,
  the token's scope meets the scope the handler requires.
\<close>

definition admits :: "oauth \<Rightarrow> Database \<Rightarrow> int \<Rightarrow> Request \<Rightarrow> AccessToken \<Rightarrow> bool" where
  "admits o' db now r token =
     (has_bearer r \<and> GetAccessToken db now (bearer_token r) = Some token \<and>
      (Permissive o' \<or>
       StringSet_Intersect (AccessToken.Scope token) (oauth.scope o') \<noteq> {||}))"

section \<open>Example data\<close>

text \<open>
  A small database in the style of the test fixtures: two clients, two accounts, an
  approval, a grant request with an exchange code, Alice's access token and Bob's expired
  one, and a refresh token.
\<close>

definition client_gin :: Client where
  "client_gin = \<lparr>Client.UUID = ''c-gin'', Name = ''gin'', Secret = ''secret'',
     ScopeProvidedMap = fmempty, ScopeWhitelist = {|''account-read''|},
     RedirectURIs = {|''https://localhost/redirect''|}\<rparr>"

definition client_wb :: Client where
  "client_wb = \<lparr>Client.UUID = ''c-wb'', Name = ''wb'', Secret = ''secret-wb'',
     ScopeProvidedMap = fmempty, ScopeWhitelist = {|''repo-read'', ''repo-write''|},
     RedirectURIs = {|''https://wb/redirect''|}\<rparr>"

definition alice :: Account where
  "alice = \<lparr>Account.UUID = ''u-alice'', Login = ''alice'', VerifyPassword = (\<lambda>p. p = ''testtest'')\<rparr>"

definition bob :: Account where
  "bob = \<lparr>Account.UUID = ''u-bob'', Login = ''bob'', VerifyPassword = (\<lambda>p. p = ''testtest'')\<rparr>"

definition request_alice :: GrantRequest where
  "request_alice = \<lparr>GrantRequest.Token = ''U7JIKKYI'', GrantRequest.GrantType = ''code'',
     State = ''xyz'', GrantRequest.Code = Some ''HGZQP6WE'',
     ScopeRequested = {|''account-read'', ''repo-read''|},
     RedirectURI = ''https://localhost/redirect'',
     GrantRequest.ClientUUID = ''c-gin'', GrantRequest.AccountUUID = Some ''u-alice''\<rparr>"

definition refresh_alice :: RefreshToken where
  "refresh_alice = \<lparr>RefreshToken.Token = ''YYPTDSVZ'', RefreshToken.Scope = {|''repo-read''|},
     RefreshToken.ClientUUID = ''c-gin'', RefreshToken.AccountUUID = ''u-alice''\<rparr>"

definition db_test :: Database where
  "db_test = \<lparr>
     Clients = [client_gin, client_wb],
     ClientScopeProvided =
       [\<lparr>spClientUUID = ''c-gin'', spName = ''account-read'', spDescription = ''Read account''\<rparr>,
        \<lparr>spClientUUID = ''c-gin'', spName = ''account-write'', spDescription = ''Change account''\<rparr>,
        \<lparr>spClientUUID = ''c-wb'', spName = ''repo-read'', spDescription = ''Read repositories''\<rparr>,
        \<lparr>spClientUUID = ''c-wb'', spName = ''repo-write'', spDescription = ''Change repositories''\<rparr>],
     ClientApprovals =
       [\<lparr>ClientApproval.ClientUUID = ''c-gin'', ClientApproval.AccountUUID = ''u-alice'',
         ClientApproval.Scope = {|''account-write''|}\<rparr>],
     GrantRequests = [request_alice],
     AccessTokens =
       [\<lparr>AccessToken.Token = ''3N7MP7M7'', AccessToken.Scope = {|''repo-read''|}, Expires = 100,
         AccessToken.ClientUUID = ''c-gin'', AccessToken.AccountUUID = Some ''u-alice''\<rparr>,
        \<lparr>AccessToken.Token = ''LJ3W7ZFK'', AccessToken.Scope = {|''repo-read''|}, Expires = 10,
         AccessToken.ClientUUID = ''c-gin'', AccessToken.AccountUUID = Some ''u-bob''\<rparr>],
     RefreshTokens = [refresh_alice],
     Accounts = [alice, bob]\<rparr>"

text \<open>
  The two clients as \<^verbatim>\<open>GetClientByName\<close> reads them, with their provided scope filled in.
\<close>

definition gin_read :: Client where
  "gin_read = client_gin\<lparr>ScopeProvidedMap :=
     fmupd ''account-write'' ''Change account'' (fmupd ''account-read'' ''Read account'' fmempty)\<rparr>"

definition wb_read :: Client where
  "wb_read = client_wb\<lparr>ScopeProvidedMap :=
     fmupd ''repo-write'' ''Change repositories''
       (fmupd ''repo-read'' ''Read repositories'' fmempty)\<rparr>"

text \<open>
  Token requests: a body with the given grant type and all other fields empty, and a
  request that carries the client's credentials in the header.
\<close>

definition body_of :: "string \<Rightarrow> TokenBody" where
  "body_of grant = \<lparr>TokenBody.GrantType = grant, ClientId = [], ClientSecret = [],
     TokenBody.Scope = [], TokenBody.Code = [], TokenBody.RefreshToken = [],
     Username = [], Password = []\<rparr>"

definition request_of :: "string \<Rightarrow> string \<Rightarrow> TokenBody \<Rightarrow> TokenRequest" where
  "request_of name secret body = \<lparr>BasicAuth = Some (name, secret), Body = Inr body\<rparr>"

definition body_code :: TokenBody where
  "body_code = (body_of ''authorization_code'')\<lparr>TokenBody.Code := ''HGZQP6WE''\<rparr>"

definition body_refresh :: TokenBody where
  "body_refresh = (body_of ''refresh_token'')\<lparr>TokenBody.RefreshToken := ''YYPTDSVZ''\<rparr>"



text \<open>The consent form for Alice's grant request, approving the given scope names.\<close>

definition approve_form :: "string list \<Rightarrow> ApproveForm" where
  "approve_form names = \<lparr>ApproveForm.Client = ''gin'', RequestID = ''U7JIKKYI'',
     ApproveForm.Scope = names\<rparr>"

text \<open>
  A request with Alice's bearer token, and wrapped handlers: one that panics, and one
  that answers with the matched scope it finds for its request.
\<close>

definition request_bearer :: Request where
  "request_bearer = \<lparr>ident = 7, Authorization = ''Bearer 3N7MP7M7''\<rparr>"

definition token_alice :: AccessToken where
  "token_alice = \<lparr>AccessToken.Token = ''3N7MP7M7'', AccessToken.Scope = {|''repo-read''|},
     Expires = 100, AccessToken.ClientUUID = ''c-gin'',
     AccessToken.AccountUUID = Some ''u-alice''\<rparr>"

definition handler_panics :: Handler where
  "handler_panics store r = (Panic, store)"

definition handler_reports :: Handler where
  "handler_reports store r =
     (case OAuthToken store r of
        None \<Rightarrow> (ErrorJSON ''anonymous'' 200, store)
      | Some info \<Rightarrow> (RedirectToken [] (Match info) [] (AccessToken.Token (Token info)), store))"

section \<open>Facts about the example data\<close>

lemma db_test_simps:
  "Clients db_test = [client_gin, client_wb]"
  "ClientScopeProvided db_test =
       [\<lparr>spClientUUID = ''c-gin'', spName = ''account-read'', spDescription = ''Read account''\<rparr>,
        \<lparr>spClientUUID = ''c-gin'', spName = ''account-write'', spDescription = ''Change account''\<rparr>,
        \<lparr>spClientUUID = ''c-wb'', spName = ''repo-read'', spDescription = ''Read repositories''\<rparr>,
        \<lparr>spClientUUID = ''c-wb'', spName = ''repo-write'', spDescription = ''Change repositories''\<rparr>]"
  by (simp_all add: db_test_def)

lemma db_test_approvals:
  "ApprovalForAccount db_test client_gin ''u-alice'' =
     Some \<lparr>ClientApproval.ClientUUID = ''c-gin'', ClientApproval.AccountUUID = ''u-alice'',
           ClientApproval.Scope = {|''account-write''|}\<rparr>"
  "ApprovalForAccount db_test client_wb ''u-alice'' = None"
  by (simp_all add: ApprovalForAccount_def db_test_def client_gin_def client_wb_def)

lemma db_test_valid:
  "CheckScope db_test {|''account-read''|}" "CheckScope db_test {|''repo-read''|}"
  by (simp_all add: CheckScope_def StringSet_Len_def StringSet_IsSuperset_def NewStringSet_def
      db_test_def)

lemma fset_ex_neq:
  "{|''account-write'', ''account-read'', ''repo-read''|} \<noteq> {|''account-read''|} |\<union>| {|''repo-read''|}"
proof
  assume "{|''account-write'', ''account-read'', ''repo-read''|} = {|''account-read''|} |\<union>| {|''repo-read''|}"
  then have "''account-write'' |\<in>| {|''account-read''|} |\<union>| {|''repo-read''|}" by (metis finsertI1)
  then show False by simp
qed

section \<open>The global scope check\<close>

lemma fmdom_fold_fmupd:
  "fmdom (fold (\<lambda>s m. fmupd (spName s) (spDescription s) m) rows m0)
     = fmdom m0 |\<union>| fset_of_list (map spName rows)"
  by (induction rows arbitrary: m0) auto

lemma find_uuid_Some:
  "u \<in> set (map Client.UUID cs) \<Longrightarrow> \<exists>c. find (\<lambda>c. Client.UUID c = u) cs = Some c \<and> Client.UUID c = u"
  by (induction cs) auto

lemma GetClient_ScopeProvided:
  "GetClient db u = Some c \<Longrightarrow>
     Client.UUID c = u \<and>
     ScopeProvided c = fset_of_list (map spName (filter (\<lambda>s. spClientUUID s = u) (ClientScopeProvided db)))"
  by (auto simp: GetClient_def getClient_def ScopeProvided_def fmdom_fold_fmupd Let_def
      split: option.splits dest: find_Some_iff[THEN iffD1])

lemma GetClient_registered:
  "u \<in> set (map Client.UUID (Clients db)) \<Longrightarrow> \<exists>c. GetClient db u = Some c"
  using find_uuid_Some[of u "Clients db"]
  by (auto simp: GetClient_def getClient_def Let_def)

lemma ffUnion_member: "x |\<in>| ffUnion A \<longleftrightarrow> (\<exists>s. s |\<in>| A \<and> x |\<in>| s)"
  by (induction A) auto

lemma global_catalog_member:
  "x |\<in>| global_catalog db \<longleftrightarrow>
     (\<exists>u c. u \<in> set (map Client.UUID (Clients db)) \<and> GetClient db u = Some c \<and> x |\<in>| ScopeProvided c)"
  unfolding global_catalog_def listClientUUIDs_def NewStringSet_def ffUnion_member
  by (fastforce simp: fset_of_list_elem split: option.splits)

lemma global_catalog_subset:
  "global_catalog db |\<subseteq>| fset_of_list (map spName (ClientScopeProvided db))"
  by (rule fsubsetI) (auto simp: global_catalog_member fset_of_list_elem dest!: GetClient_ScopeProvided)

lemma global_catalog_eq:
  assumes "scope_rows_reference_clients db"
  shows "global_catalog db = fset_of_list (map spName (ClientScopeProvided db))"
proof (rule fset_eqI)
  fix x
  show "x |\<in>| global_catalog db \<longleftrightarrow> x |\<in>| fset_of_list (map spName (ClientScopeProvided db))"
  proof
    assume "x |\<in>| global_catalog db"
    then show "x |\<in>| fset_of_list (map spName (ClientScopeProvided db))"
      using global_catalog_subset by blast
  next
    assume "x |\<in>| fset_of_list (map spName (ClientScopeProvided db))"
    then obtain s where s: "s \<in> set (ClientScopeProvided db)" "spName s = x"
      by (auto simp: fset_of_list_elem)
    with assms have reg: "spClientUUID s \<in> set (map Client.UUID (Clients db))"
      by (auto simp: scope_rows_reference_clients_def list_all_iff)
    then obtain c where c: "GetClient db (spClientUUID s) = Some c"
      using GetClient_registered by blast
    from GetClient_ScopeProvided[OF c] s have "x |\<in>| ScopeProvided c"
      by (auto simp: fset_of_list_elem)
    with c reg show "x |\<in>| global_catalog db"
      unfolding global_catalog_member by blast
  qed
qed

text \<open>
  Claim C8. \<^verbatim>\<open>CheckScope\<close> returns false for the empty scope set; for any other scope
  set it returns true exactly when the set is a subset of the union of the provided-scope
  catalogs of all registered clients, not only of the client that asks. The table
  \<^verbatim>\<open>ClientScopeProvided\<close> is read as a whole, so the statement needs the table to refer to
  registered clients only.
\<close>

theorem CheckScope_iff:
  assumes "scope_rows_reference_clients db"
  shows "CheckScope db s = (s \<noteq> {||} \<and> s |\<subseteq>| global_catalog db)"
  using global_catalog_eq[OF assms]
  by (auto simp: CheckScope_def StringSet_Len_def StringSet_IsSuperset_def NewStringSet_def Let_def)

text \<open>
  On the example data a scope that spans the catalogs of two clients passes, a scope with
  a name in no catalog fails, and so does the empty scope.
\<close>

theorem CheckScope_iff_witness:
  "scope_rows_reference_clients db_test
   \<and> CheckScope db_test {|''account-read'', ''repo-write''|}
   \<and> {|''account-read'', ''repo-write''|} |\<subseteq>| global_catalog db_test
   \<and> \<not> CheckScope db_test {|''account-read'', ''admin''|}
   \<and> \<not> {|''account-read'', ''admin''|} |\<subseteq>| global_catalog db_test
   \<and> \<not> CheckScope db_test {||}"
proof -
  have h: "scope_rows_reference_clients db_test"
    by (simp add: scope_rows_reference_clients_def db_test_simps client_gin_def client_wb_def)
  have a: "CheckScope db_test {|''account-read'', ''repo-write''|}"
    by (simp add: CheckScope_def StringSet_Len_def StringSet_IsSuperset_def NewStringSet_def
        db_test_simps fcard_finsert_if)
  have b: "\<not> CheckScope db_test {|''account-read'', ''admin''|}"
    by (simp add: CheckScope_def StringSet_Len_def StringSet_IsSuperset_def NewStringSet_def
        db_test_simps fcard_finsert_if)
  have c: "\<not> CheckScope db_test {||}"
    by (simp add: CheckScope_def StringSet_Len_def)
  show ?thesis
    using h a b c CheckScope_iff [OF h, of "{|''account-read'', ''repo-write''|}"]
      CheckScope_iff [OF h, of "{|''account-read'', ''admin''|}"]
    by simp
qed

section \<open>The approval ledger\<close>

lemma CheckScope_cong:
  "ClientScopeProvided db' = ClientScopeProvided db \<Longrightarrow> CheckScope db' s = CheckScope db s"
  by (simp add: CheckScope_def)

lemma find_append_one:
  "find P (xs @ [y]) = (case find P xs of Some x \<Rightarrow> Some x | None \<Rightarrow> if P y then Some y else None)"
  by (induction xs) auto

lemma find_map_replace_hit:
  "find P xs = Some x \<Longrightarrow> P y \<Longrightarrow> (\<And>r. K r = P r) \<Longrightarrow>
     find P (map (\<lambda>r. if K r then y else r) xs) = Some y"
  by (induction xs) (auto split: if_splits)

lemma find_map_replace_miss:
  "\<not> P y \<Longrightarrow> (\<And>r. K r \<Longrightarrow> \<not> P r) \<Longrightarrow>
     find P (map (\<lambda>r. if K r then y else r) xs) = find P xs"
  by (induction xs) auto

lemma find_Some_holds: "find P xs = Some x \<Longrightarrow> P x"
  by (induction xs) (auto split: if_splits)

lemma Client_Approve_tables:
  "ClientScopeProvided (snd (Client_Approve db c a s)) = ClientScopeProvided db"
  by (simp add: Client_Approve_def ClientApproval_Update_def ClientApproval_Create_def
      Let_def split: option.splits)

lemma Client_Approve_invalid:
  "\<not> CheckScope db s \<Longrightarrow> Client_Approve db c a s = (Some ''Invalid scope'', db)"
  by (simp add: Client_Approve_def)

lemma Client_Approve_None:
  assumes "CheckScope db s" and "ApprovalForAccount db c a = None"
  shows "Client_Approve db c a s =
           (None, db\<lparr>ClientApprovals := ClientApprovals db @
              [\<lparr>ClientApproval.ClientUUID = Client.UUID c, ClientApproval.AccountUUID = a,
                ClientApproval.Scope = s\<rparr>]\<rparr>)"
proof -
  have "find (same_approval_key \<lparr>ClientApproval.ClientUUID = Client.UUID c,
           ClientApproval.AccountUUID = a, ClientApproval.Scope = s\<rparr>) (ClientApprovals db) = None"
    using assms(2) by (auto simp: ApprovalForAccount_def same_approval_key_def find_None_iff)
  then show ?thesis
    using assms by (simp add: Client_Approve_def ClientApproval_Create_def)
qed

lemma Client_Approve_Some:
  assumes "CheckScope db s" and "ApprovalForAccount db c a = Some ap"
  shows "Client_Approve db c a s =
           (if s |\<subseteq>| ClientApproval.Scope ap then (None, db)
            else (None, db\<lparr>ClientApprovals :=
                    map (\<lambda>r. if ClientApproval.ClientUUID r = Client.UUID c \<and>
                                 ClientApproval.AccountUUID r = a
                              then ap\<lparr>ClientApproval.Scope := ClientApproval.Scope ap |\<union>| s\<rparr>
                              else r) (ClientApprovals db)\<rparr>))"
proof -
  have k: "ClientApproval.ClientUUID ap = Client.UUID c \<and> ClientApproval.AccountUUID ap = a"
    using find_Some_holds[OF assms(2)[unfolded ApprovalForAccount_def]] by simp
  then have "\<And>r sc. same_approval_key (ap\<lparr>ClientApproval.Scope := sc\<rparr>) r =
      (ClientApproval.ClientUUID r = Client.UUID c \<and> ClientApproval.AccountUUID r = a)"
    by (auto simp: same_approval_key_def)
  then show ?thesis
    using assms by (simp add: Client_Approve_def ClientApproval_Update_def
        StringSet_IsSuperset_def StringSet_Union_def)
qed

lemma Client_Approve_valid_err:
  "CheckScope db s \<Longrightarrow> fst (Client_Approve db c a s) = None"
  by (cases "ApprovalForAccount db c a")
     (simp_all add: Client_Approve_None Client_Approve_Some)

lemma Client_Approve_valid_lookup:
  assumes "CheckScope db s"
  shows "ApprovalForAccount (snd (Client_Approve db c a s)) c a =
           (case ApprovalForAccount db c a of
              None \<Rightarrow> Some \<lparr>ClientApproval.ClientUUID = Client.UUID c,
                            ClientApproval.AccountUUID = a, ClientApproval.Scope = s\<rparr>
            | Some ap \<Rightarrow> Some (ap\<lparr>ClientApproval.Scope := ClientApproval.Scope ap |\<union>| s\<rparr>))"
proof (cases "ApprovalForAccount db c a")
  case None
  then show ?thesis
    using assms None[unfolded ApprovalForAccount_def]
    by (simp add: Client_Approve_None) (simp add: ApprovalForAccount_def find_append_one)
next
  case (Some ap)
  have k: "ClientApproval.ClientUUID ap = Client.UUID c \<and> ClientApproval.AccountUUID ap = a"
    using find_Some_holds[OF Some[unfolded ApprovalForAccount_def]] by simp
  show ?thesis
  proof (cases "s |\<subseteq>| ClientApproval.Scope ap")
    case True
    then have "ClientApproval.Scope ap |\<union>| s = ClientApproval.Scope ap" by auto
    then show ?thesis using assms Some True by (simp add: Client_Approve_Some)
  next
    case False
    have "find (\<lambda>r. ClientApproval.ClientUUID r = Client.UUID c \<and> ClientApproval.AccountUUID r = a)
            (map (\<lambda>r. if ClientApproval.ClientUUID r = Client.UUID c \<and>
                          ClientApproval.AccountUUID r = a
                       then ap\<lparr>ClientApproval.Scope := ClientApproval.Scope ap |\<union>| s\<rparr>
                       else r) (ClientApprovals db))
          = Some (ap\<lparr>ClientApproval.Scope := ClientApproval.Scope ap |\<union>| s\<rparr>)"
      by (rule find_map_replace_hit[OF Some[unfolded ApprovalForAccount_def]]) (simp_all add: k)
    then show ?thesis
      using assms Some False by (simp add: Client_Approve_Some) (simp add: ApprovalForAccount_def)
  qed
qed

lemma Client_Approve_valid_scope:
  "CheckScope db s \<Longrightarrow>
     approved_scope (snd (Client_Approve db c a s)) c a = approved_scope db c a |\<union>| s"
  by (simp add: approved_scope_def Client_Approve_valid_lookup split: option.splits)

lemma Client_Approve_other:
  assumes "(Client.UUID c', a') \<noteq> (Client.UUID c, a)"
  shows "ApprovalForAccount (snd (Client_Approve db c' a' s)) c a = ApprovalForAccount db c a"
proof (cases "CheckScope db s")
  case False
  then show ?thesis by (simp add: Client_Approve_invalid)
next
  case True
  show ?thesis
  proof (cases "ApprovalForAccount db c' a'")
    case None
    then show ?thesis using True assms
      by (simp add: Client_Approve_None) (auto simp: ApprovalForAccount_def find_append_one split: option.splits)
  next
    case (Some ap)
    have k: "ClientApproval.ClientUUID ap = Client.UUID c' \<and> ClientApproval.AccountUUID ap = a'"
      using find_Some_holds[OF Some[unfolded ApprovalForAccount_def]] by simp
    have "find (\<lambda>r. ClientApproval.ClientUUID r = Client.UUID c \<and> ClientApproval.AccountUUID r = a)
            (map (\<lambda>r. if ClientApproval.ClientUUID r = Client.UUID c' \<and>
                          ClientApproval.AccountUUID r = a'
                       then ap\<lparr>ClientApproval.Scope := ClientApproval.Scope ap |\<union>| s\<rparr>
                       else r) (ClientApprovals db))
          = find (\<lambda>r. ClientApproval.ClientUUID r = Client.UUID c \<and> ClientApproval.AccountUUID r = a)
              (ClientApprovals db)"
      by (rule find_map_replace_miss) (use assms k in auto)
    then show ?thesis using True Some
      by (simp add: Client_Approve_Some) (simp add: ApprovalForAccount_def)
  qed
qed

lemma Client_Approve_mono:
  "approved_scope db c a |\<subseteq>| approved_scope (snd (Client_Approve db c' a' s)) c a"
proof (cases "(Client.UUID c', a') = (Client.UUID c, a)")
  case False
  then show ?thesis by (simp add: approved_scope_def Client_Approve_other)
next
  case True
  then have eq: "ApprovalForAccount d c' a' = ApprovalForAccount d c a" for d
    by (simp add: ApprovalForAccount_def)
  have same: "approved_scope d c' a' = approved_scope d c a" for d
    by (simp add: approved_scope_def eq)
  show ?thesis
  proof (cases "CheckScope db s")
    case False
    then show ?thesis by (simp add: Client_Approve_invalid)
  next
    case True
    from Client_Approve_valid_scope[OF True, of c' a'] show ?thesis
      by (simp add: same)
  qed
qed

lemma Client_Approve_repeat:
  assumes "CheckScope db s"
  shows "Client_Approve (snd (Client_Approve db c a s)) c a s = (None, snd (Client_Approve db c a s))"
proof -
  let ?d = "snd (Client_Approve db c a s)"
  have v: "CheckScope ?d s"
    using assms by (simp add: CheckScope_cong[OF Client_Approve_tables])
  obtain ap where ap: "ApprovalForAccount ?d c a = Some ap" and sub: "s |\<subseteq>| ClientApproval.Scope ap"
    using Client_Approve_valid_lookup[OF assms, of c a] by (auto split: option.splits)
  show ?thesis using Client_Approve_Some[OF v ap] sub by simp
qed

lemma Approve_all_mono:
  "approved_scope db c a |\<subseteq>| approved_scope (Approve_all db calls) c a"
proof (induction calls arbitrary: db)
  case Nil
  then show ?case by (simp add: Approve_all_def)
next
  case (Cons call calls)
  obtain c' a' s where call: "call = (c', a', s)" by (cases call)
  have "approved_scope db c a |\<subseteq>| approved_scope (snd (Client_Approve db c' a' s)) c a"
    by (rule Client_Approve_mono)
  also have "\<dots> |\<subseteq>| approved_scope (Approve_all (snd (Client_Approve db c' a' s)) calls) c a"
    by (rule Cons.IH)
  finally show ?case by (simp add: Approve_all_def call)
qed

text \<open>
  Claim C4, as stated, fails where the ledger already holds an approval for the client
  and the account: the two calls add their scopes to the stored one, they do not replace
  it. On the example data Alice has approved \<open>account-write\<close> for the client; after
  approving \<open>account-read\<close> and then \<open>repo-read\<close> the record holds all three names, which is
  not the union of the two scopes of the calls.
\<close>

theorem Approve_exactly_union_counterexample:
  "CheckScope db_test {|''account-read''|} \<and> CheckScope db_test {|''repo-read''|}
   \<and> approved_scope
        (Approve_all db_test
           [(client_gin, ''u-alice'', {|''account-read''|}),
            (client_gin, ''u-alice'', {|''repo-read''|})]) client_gin ''u-alice''
       = {|''account-write'', ''account-read'', ''repo-read''|}
   \<and> {|''account-write'', ''account-read'', ''repo-read''|}
       \<noteq> {|''account-read''|} |\<union>| {|''repo-read''|}"
proof -
  let ?d = "snd (Client_Approve db_test client_gin ''u-alice'' {|''account-read''|})"
  have v: "CheckScope ?d {|''repo-read''|}"
    using db_test_valid(2) by (simp add: CheckScope_cong[OF Client_Approve_tables])
  have e: "approved_scope db_test client_gin ''u-alice'' = {|''account-write''|}"
    by (simp add: approved_scope_def db_test_approvals)
  have "approved_scope (snd (Client_Approve ?d client_gin ''u-alice'' {|''repo-read''|}))
          client_gin ''u-alice''
        = {|''account-write'', ''account-read'', ''repo-read''|}"
    unfolding Client_Approve_valid_scope[OF v] Client_Approve_valid_scope[OF db_test_valid(1)] e
    by (simp add: finsert_commute)
  then have "approved_scope
        (Approve_all db_test
           [(client_gin, ''u-alice'', {|''account-read''|}),
            (client_gin, ''u-alice'', {|''repo-read''|})]) client_gin ''u-alice''
       = {|''account-write'', ''account-read'', ''repo-read''|}"
    by (simp add: Approve_all_def)
  with db_test_valid fset_ex_neq show ?thesis by (intro conjI)
qed

text \<open>
  Claim C4, amended. For valid scopes \<open>s1\<close> and \<open>s2\<close>, \<^verbatim>\<open>Approve\<close> with \<open>s1\<close> and then with
  \<open>s2\<close> leaves the approval of the client and the account with the scope stored before the
  calls (empty when there was no record, so the result is exactly the union of \<open>s1\<close> and
  \<open>s2\<close> then) together with \<open>s1\<close> and \<open>s2\<close>; the result is the same in either order of the
  calls; repeating a call with the same scope changes nothing; and no sequence of calls
  of \<^verbatim>\<open>Approve\<close>, for whatever clients, accounts and scopes, shrinks a stored approval
  scope.
\<close>

theorem Approve_accumulates:
  assumes "CheckScope db s1" and "CheckScope db s2"
  shows "approved_scope (Approve_all db [(c, a, s1), (c, a, s2)]) c a
           = approved_scope db c a |\<union>| (s1 |\<union>| s2)
       \<and> approved_scope (Approve_all db [(c, a, s2), (c, a, s1)]) c a
           = approved_scope (Approve_all db [(c, a, s1), (c, a, s2)]) c a
       \<and> Approve_all db [(c, a, s1), (c, a, s1)] = Approve_all db [(c, a, s1)]
       \<and> (\<forall>calls c' a'. approved_scope db c' a' |\<subseteq>| approved_scope (Approve_all db calls) c' a')"
proof -
  let ?d1 = "snd (Client_Approve db c a s1)" and ?d2 = "snd (Client_Approve db c a s2)"
  have v2: "CheckScope ?d1 s2" and v1: "CheckScope ?d2 s1"
    using assms by (simp_all add: CheckScope_cong[OF Client_Approve_tables])
  have a: "approved_scope (snd (Client_Approve ?d1 c a s2)) c a = approved_scope db c a |\<union>| (s1 |\<union>| s2)"
    using Client_Approve_valid_scope[OF v2] Client_Approve_valid_scope[OF assms(1)]
    by (simp add: funion_assoc)
  have b: "approved_scope (snd (Client_Approve ?d2 c a s1)) c a = approved_scope db c a |\<union>| (s1 |\<union>| s2)"
    using Client_Approve_valid_scope[OF v1] Client_Approve_valid_scope[OF assms(2)]
    by (simp add: funion_assoc funion_commute)
  have r: "snd (Client_Approve ?d1 c a s1) = ?d1"
    using Client_Approve_repeat[OF assms(1)] by simp
  show ?thesis
    using a b r Approve_all_mono by (simp add: Approve_all_def)
qed

text \<open>
  On the example data: with Alice's earlier approval for the first client the result has
  three names; for the second client, where the ledger has no record of hers, it is
  exactly the union of the two scopes.
\<close>

theorem Approve_accumulates_witness:
  "CheckScope db_test {|''account-read''|} \<and> CheckScope db_test {|''repo-read''|}
   \<and> approved_scope
        (Approve_all db_test
           [(client_gin, ''u-alice'', {|''account-read''|}),
            (client_gin, ''u-alice'', {|''repo-read''|})]) client_gin ''u-alice''
       = {|''account-write'', ''account-read'', ''repo-read''|}
   \<and> approved_scope
        (Approve_all db_test
           [(client_wb, ''u-alice'', {|''account-read''|}),
            (client_wb, ''u-alice'', {|''repo-read''|})]) client_wb ''u-alice''
       = {|''account-read'', ''repo-read''|}"
proof -
  have e: "approved_scope db_test client_gin ''u-alice'' = {|''account-write''|}"
    and f: "approved_scope db_test client_wb ''u-alice'' = {||}"
    by (simp_all add: approved_scope_def db_test_approvals)
  have g: "approved_scope
        (Approve_all db_test
           [(client_gin, ''u-alice'', {|''account-read''|}),
            (client_gin, ''u-alice'', {|''repo-read''|})]) client_gin ''u-alice''
       = {|''account-write'', ''account-read'', ''repo-read''|}"
    using Approve_accumulates [OF db_test_valid, of client_gin "''u-alice''"]
    unfolding e by (simp add: finsert_commute)
  have w: "approved_scope
        (Approve_all db_test
           [(client_wb, ''u-alice'', {|''account-read''|}),
            (client_wb, ''u-alice'', {|''repo-read''|})]) client_wb ''u-alice''
       = {|''account-read'', ''repo-read''|}"
    using Approve_accumulates [OF db_test_valid, of client_wb "''u-alice''"]
    unfolding f by (simp add: finsert_commute)
  from db_test_valid g w show ?thesis by (intro conjI)
qed

section \<open>More facts about the example data\<close>

lemma db_test_clients:
  "GetClientByName db_test ''gin'' = Some gin_read"
  "GetClientByName db_test ''wb'' = Some wb_read"
  "GetClient db_test ''c-gin'' = Some gin_read"
  by (simp_all add: GetClientByName_def GetClient_def getClient_def db_test_simps client_gin_def
      client_wb_def gin_read_def wb_read_def)

lemma db_test_tables:
  "GrantRequests db_test = [request_alice]"
  "AccessTokens db_test =
       [token_alice,
        \<lparr>AccessToken.Token = ''LJ3W7ZFK'', AccessToken.Scope = {|''repo-read''|}, Expires = 10,
         AccessToken.ClientUUID = ''c-gin'', AccessToken.AccountUUID = Some ''u-bob''\<rparr>]"
  "RefreshTokens db_test = [refresh_alice]"
  "Accounts db_test = [alice, bob]"
  by (simp_all add: db_test_def token_alice_def)

lemma authenticates_gin:
  "authenticates db_test (request_of ''gin'' ''secret'' body) body gin_read"
  by (simp add: authenticates_def request_of_def db_test_clients) (simp add: gin_read_def client_gin_def)

lemma authenticates_wb:
  "authenticates db_test (request_of ''wb'' ''secret-wb'' body) body wb_read"
  by (simp add: authenticates_def request_of_def db_test_clients) (simp add: wb_read_def client_wb_def)

lemma body_code_fields:
  "TokenBody.GrantType body_code = ''authorization_code''" "TokenBody.Code body_code = ''HGZQP6WE''"
  by (simp_all add: body_code_def body_of_def)

lemma request_alice_fields:
  "GrantRequest.Token request_alice = ''U7JIKKYI''"
  "GrantRequest.Code request_alice = Some ''HGZQP6WE''"
  "GrantRequest.ClientUUID request_alice = ''c-gin''"
  "GrantRequest.AccountUUID request_alice = Some ''u-alice''"
  "ScopeRequested request_alice = {|''account-read'', ''repo-read''|}"
  "GrantRequest.GrantType request_alice = ''code''"
  by (simp_all add: request_alice_def)

lemma client_read_fields:
  "Client.UUID gin_read = ''c-gin''" "Client.UUID wb_read = ''c-wb''"
  "ScopeWhitelist gin_read = {|''account-read''|}"
  "ScopeWhitelist wb_read = {|''repo-read'', ''repo-write''|}"
  by (simp_all add: gin_read_def wb_read_def client_gin_def client_wb_def)

lemma db_test_code: "GetGrantRequestByCode db_test ''HGZQP6WE'' = Some request_alice"
  by (simp add: GetGrantRequestByCode_def db_test_tables request_alice_fields)

lemma db_test_fresh:
  "fresh_access db_test ''A1''" "fresh_refresh db_test ''R1''"
  by (simp_all add: fresh_access_def fresh_refresh_def db_test_tables token_alice_def
      refresh_alice_def)

lemma body_refresh_fields:
  "TokenBody.GrantType body_refresh = ''refresh_token''"
  "TokenBody.RefreshToken body_refresh = ''YYPTDSVZ''"
  by (simp_all add: body_refresh_def body_of_def)

lemma db_test_refresh: "GetRefreshToken db_test ''YYPTDSVZ'' = Some refresh_alice"
  by (simp add: GetRefreshToken_def db_test_tables) (simp add: refresh_alice_def)




lemma db_test_request:
  "GetGrantRequest db_test (RequestID (approve_form names)) = Some request_alice"
  "GrantRequest_Client db_test request_alice = Some gin_read"
  by (simp_all add: GetGrantRequest_def GrantRequest_Client_def approve_form_def db_test_tables
      request_alice_fields db_test_clients)

lemma db_test_valid_request: "CheckScope db_test (ScopeRequested request_alice)"
  by (simp add: CheckScope_def StringSet_Len_def StringSet_IsSuperset_def NewStringSet_def
      db_test_simps request_alice_fields)

lemma request_bearer_facts:
  "has_bearer request_bearer" "bearer_token request_bearer = ''3N7MP7M7''"
  by (simp_all add: has_bearer_def bearer_token_def request_bearer_def strings_HasPrefix_def
      strings_Trim_def)

lemma GetAccessToken_alice: "GetAccessToken db_test 50 ''3N7MP7M7'' = Some token_alice"
  by (simp add: GetAccessToken_def db_test_tables) (simp add: token_alice_def)

section \<open>Expired access tokens\<close>

text \<open>
  Claim C7. A lookup of an access token at or after its stored expiry time stamp returns
  the same "not found" result as the lookup of a token string that was never created: on
  the read path an expired token cannot be told from one that does not exist.
\<close>

theorem GetAccessToken_expired:
  assumes "find (\<lambda>t. AccessToken.Token t = token) (AccessTokens db) = Some tok"
    and "Expires tok \<le> now"
    and "find (\<lambda>t. AccessToken.Token t = never) (AccessTokens db) = None"
  shows "GetAccessToken db now token = None
       \<and> GetAccessToken db now token = GetAccessToken db now never"
  using assms by (simp add: GetAccessToken_def)

text \<open>
  On the example data Bob's token expires at time 10: at time 10 it is not found, like a
  token string that is not stored, while at time 9 it still is.
\<close>

theorem GetAccessToken_expired_witness:
  "find (\<lambda>t. AccessToken.Token t = ''LJ3W7ZFK'') (AccessTokens db_test) =
     Some \<lparr>AccessToken.Token = ''LJ3W7ZFK'', AccessToken.Scope = {|''repo-read''|}, Expires = 10,
           AccessToken.ClientUUID = ''c-gin'', AccessToken.AccountUUID = Some ''u-bob''\<rparr>
   \<and> find (\<lambda>t. AccessToken.Token t = ''doesNotExist'') (AccessTokens db_test) = None
   \<and> GetAccessToken db_test 10 ''LJ3W7ZFK'' = None
   \<and> GetAccessToken db_test 10 ''LJ3W7ZFK'' = GetAccessToken db_test 10 ''doesNotExist''
   \<and> GetAccessToken db_test 9 ''LJ3W7ZFK'' \<noteq> None"
proof -
  have a: "find (\<lambda>t. AccessToken.Token t = ''LJ3W7ZFK'') (AccessTokens db_test) =
     Some \<lparr>AccessToken.Token = ''LJ3W7ZFK'', AccessToken.Scope = {|''repo-read''|}, Expires = 10,
           AccessToken.ClientUUID = ''c-gin'', AccessToken.AccountUUID = Some ''u-bob''\<rparr>"
    by (simp add: db_test_tables token_alice_def)
  have b: "find (\<lambda>t. AccessToken.Token t = ''doesNotExist'') (AccessTokens db_test) = None"
    by (simp add: db_test_tables token_alice_def)
  have c: "GetAccessToken db_test 9 ''LJ3W7ZFK'' \<noteq> None"
    by (simp add: GetAccessToken_def a)
  have d: "GetAccessToken db_test 10 ''LJ3W7ZFK'' = None
       \<and> GetAccessToken db_test 10 ''LJ3W7ZFK'' = GetAccessToken db_test 10 ''doesNotExist''"
    by (rule GetAccessToken_expired [OF a _ b]) simp
  from a b d[THEN conjunct1] d[THEN conjunct2] c show ?thesis by (intro conjI)
qed

section \<open>The bearer handler\<close>

lemma ServeHTTP_resolved:
  assumes "has_bearer r" and "GetAccessToken db now (bearer_token r) = Some token"
  shows "ServeHTTP o' h db now store r =
           (if Permissive o'
            then deferred_delete r
                   (h (store(ident r \<mapsto> \<lparr>Match = AccessToken.Scope token, Token = token\<rparr>)) r)
            else if StringSet_Len (StringSet_Intersect (AccessToken.Scope token) (oauth.scope o')) < 1
            then (ErrorJSON ''Insufficient scope'' 401, store)
            else deferred_delete r
                   (h (store(ident r \<mapsto>
                         \<lparr>Match = StringSet_Intersect (AccessToken.Scope token) (oauth.scope o'),
                          Token = token\<rparr>)) r))"
  using assms by (simp add: ServeHTTP_def has_bearer_def bearer_token_def Let_def)

lemma ServeHTTP_unresolved:
  assumes "\<not> has_bearer r \<or> GetAccessToken db now (bearer_token r) = None"
  shows "ServeHTTP o' h db now store r =
           (if Permissive o' then h store r
            else (ErrorJSON (if has_bearer r then ''Invalid bearer token'' else ''No bearer token'') 401,
                  store))"
  using assms by (auto simp: ServeHTTP_def has_bearer_def bearer_token_def Let_def)

text \<open>
  Claim C9. Whenever \<^verbatim>\<open>ServeHTTP\<close> inserts an entry for its request into the shared map,
  which it does exactly for an admitted request, the entry is removed before the call is
  over, whatever the wrapped handler does with the map and whether it ends with a
  response, an error or a panic: the outcome of the wrapped handler is passed on and the
  map has no entry for the request afterwards. For a request that is not admitted
  \<^verbatim>\<open>ServeHTTP\<close> inserts nothing: it either runs the wrapped handler on the map as it is or
  rejects the request and leaves the map alone.
\<close>

theorem ServeHTTP_releases_entry:
  "(admits o' db now r token \<longrightarrow>
      (\<exists>info.
          fst (ServeHTTP o' h db now store r) = fst (h (store(ident r \<mapsto> info)) r)
        \<and> snd (ServeHTTP o' h db now store r)
            = (snd (h (store(ident r \<mapsto> info)) r))(ident r := None))
      \<and> OAuthToken (snd (ServeHTTP o' h db now store r)) r = None)
   \<and> ((\<forall>token. \<not> admits o' db now r token) \<longrightarrow>
        ServeHTTP o' h db now store r = h store r
      \<or> snd (ServeHTTP o' h db now store r) = store)"
proof (intro conjI impI)
  assume a: "admits o' db now r token"
  then have t: "has_bearer r" "GetAccessToken db now (bearer_token r) = Some token"
    by (simp_all add: admits_def)
  from a have "Permissive o' \<or>
      \<not> StringSet_Len (StringSet_Intersect (AccessToken.Scope token) (oauth.scope o')) < 1"
    by (auto simp: admits_def StringSet_Len_def)
  then obtain info where
    eq: "ServeHTTP o' h db now store r = deferred_delete r (h (store(ident r \<mapsto> info)) r)"
    unfolding ServeHTTP_resolved[OF t] by (cases "Permissive o'") auto
  show "\<exists>info.
          fst (ServeHTTP o' h db now store r) = fst (h (store(ident r \<mapsto> info)) r)
        \<and> snd (ServeHTTP o' h db now store r)
            = (snd (h (store(ident r \<mapsto> info)) r))(ident r := None)"
    by (rule exI[of _ info]) (simp add: eq deferred_delete_def)
  show "OAuthToken (snd (ServeHTTP o' h db now store r)) r = None"
    by (simp add: eq deferred_delete_def OAuthToken_def)
next
  assume n: "\<forall>token. \<not> admits o' db now r token"
  show "ServeHTTP o' h db now store r = h store r
      \<or> snd (ServeHTTP o' h db now store r) = store"
  proof (cases "has_bearer r \<and> GetAccessToken db now (bearer_token r) \<noteq> None")
    case True
    then obtain token where t: "has_bearer r" "GetAccessToken db now (bearer_token r) = Some token"
      by auto
    with n have "\<not> Permissive o'"
      and "StringSet_Intersect (AccessToken.Scope token) (oauth.scope o') = {||}"
      by (auto simp: admits_def)
    then show ?thesis
      unfolding ServeHTTP_resolved[OF t] by (simp add: StringSet_Len_def)
  next
    case False
    then have u: "\<not> has_bearer r \<or> GetAccessToken db now (bearer_token r) = None" by auto
    show ?thesis
      unfolding ServeHTTP_unresolved[OF u] by simp
  qed
qed

text \<open>
  On the example data: a request with Alice's token, a handler that requires one of two
  scopes, and a wrapped handler that panics. The panic is passed on and the map holds no
  entry for the request.
\<close>

theorem ServeHTTP_releases_entry_witness:
  "admits (OAuthHandler [''repo-read'', ''repo-write'']) db_test 50 request_bearer token_alice
   \<and> fst (ServeHTTP (OAuthHandler [''repo-read'', ''repo-write'']) handler_panics db_test 50
            Map.empty request_bearer) = Panic
   \<and> OAuthToken (snd (ServeHTTP (OAuthHandler [''repo-read'', ''repo-write'']) handler_panics
                         db_test 50 Map.empty request_bearer)) request_bearer = None"
proof -
  have a: "admits (OAuthHandler [''repo-read'', ''repo-write'']) db_test 50 request_bearer token_alice"
    by (simp add: admits_def request_bearer_facts GetAccessToken_alice OAuthHandler_def
        NewStringSet_def StringSet_Intersect_def token_alice_def)
  show ?thesis
    using a ServeHTTP_releases_entry [of "OAuthHandler [''repo-read'', ''repo-write'']" db_test 50
        request_bearer token_alice handler_panics Map.empty]
    by (auto simp: handler_panics_def)
qed

text \<open>
  Claim C10. In permissive mode, for a request whose bearer token resolves to a valid
  access token, the info the wrapped handler finds for its request has the token's whole
  granted scope as matched scope: no intersection with a required scope is taken. A
  handler that is not permissive stores the intersection of the token's scope and the
  required scope instead.
\<close>

theorem ServeHTTP_permissive_match:
  assumes "has_bearer r" and "GetAccessToken db now (bearer_token r) = Some token"
  shows "(Permissive o' \<longrightarrow>
            ServeHTTP o' h db now store r =
              deferred_delete r
                (h (store(ident r \<mapsto> \<lparr>Match = AccessToken.Scope token, Token = token\<rparr>)) r))
       \<and> (\<not> Permissive o' \<longrightarrow>
          StringSet_Intersect (AccessToken.Scope token) (oauth.scope o') \<noteq> {||} \<longrightarrow>
            ServeHTTP o' h db now store r =
              deferred_delete r
                (h (store(ident r \<mapsto>
                      \<lparr>Match = StringSet_Intersect (AccessToken.Scope token) (oauth.scope o'),
                       Token = token\<rparr>)) r))
       \<and> OAuthToken (store(ident r \<mapsto> info)) r = Some info"
  by (simp add: ServeHTTP_resolved[OF assms] OAuthToken_def StringSet_Len_def)

text \<open>
  On the example data the permissive handler, whose required scope is empty, lets the
  wrapped handler see the whole scope of Alice's token.
\<close>

theorem ServeHTTP_permissive_match_witness:
  "Permissive OAuthHandlerPermissive \<and> has_bearer request_bearer
   \<and> GetAccessToken db_test 50 (bearer_token request_bearer) = Some token_alice
   \<and> fst (ServeHTTP OAuthHandlerPermissive handler_reports db_test 50 Map.empty request_bearer)
       = RedirectToken [] {|''repo-read''|} [] ''3N7MP7M7''"
proof -
  have p: "Permissive OAuthHandlerPermissive" by (simp add: OAuthHandlerPermissive_def)
  have g: "GetAccessToken db_test 50 (bearer_token request_bearer) = Some token_alice"
    by (simp add: request_bearer_facts GetAccessToken_alice)
  show ?thesis
    using p g request_bearer_facts(1)
      ServeHTTP_permissive_match [OF request_bearer_facts(1) g, of OAuthHandlerPermissive
        handler_reports Map.empty]
    by (simp add: deferred_delete_def handler_reports_def OAuthToken_def token_alice_def)
qed

section \<open>The token endpoint\<close>

lemma web_Token_authenticated:
  assumes "authenticates db r body client"
  shows "web_Token db expires rndAccess rndRefresh r =
           (if TokenBody.GrantType body = ''authorization_code''
            then Token_authorization_code db expires rndAccess rndRefresh client body
            else if TokenBody.GrantType body = ''refresh_token''
            then Token_refresh_token db expires rndAccess client body
            else if TokenBody.GrantType body = ''password''
            then Token_password db expires rndAccess client body
            else if TokenBody.GrantType body = ''client_credentials''
            then Token_client_credentials db expires rndAccess client body
            else (ErrorJSON (''Unsupported grant type '' @ TokenBody.GrantType body) 400, db))"
  using assms
  by (simp add: authenticates_def web_Token_def split_beta split: option.splits)

lemma authenticates_cong:
  assumes "Clients db' = Clients db" and "ClientScopeProvided db' = ClientScopeProvided db"
  shows "authenticates db' r body client = authenticates db r body client"
  unfolding authenticates_def GetClientByName_def getClient_def assms ..

lemma find_filter_None:
  "(\<And>x. x \<in> set xs \<Longrightarrow> P x \<Longrightarrow> \<not> Q x) \<Longrightarrow> find P (filter Q xs) = None"
  by (auto simp: find_None_iff)

lemma Token_cases_clients:
  "Clients (snd (Token_authorization_code db expires rndAccess rndRefresh client body)) = Clients db \<and>
   ClientScopeProvided (snd (Token_authorization_code db expires rndAccess rndRefresh client body))
     = ClientScopeProvided db"
  "Clients (snd (Token_refresh_token db expires rndAccess client body)) = Clients db \<and>
   ClientScopeProvided (snd (Token_refresh_token db expires rndAccess client body))
     = ClientScopeProvided db"
  "Clients (snd (Token_password db expires rndAccess client body)) = Clients db \<and>
   ClientScopeProvided (snd (Token_password db expires rndAccess client body))
     = ClientScopeProvided db"
  "Clients (snd (Token_client_credentials db expires rndAccess client body)) = Clients db \<and>
   ClientScopeProvided (snd (Token_client_credentials db expires rndAccess client body))
     = ClientScopeProvided db"
  by (simp_all add: Token_authorization_code_def Token_refresh_token_def
      Token_password_def Token_client_credentials_def ExchangeCodeForTokens_def
      AccessToken_Create_def GrantRequest_Delete_def RefreshToken_Delete_def Let_def
      split: option.splits)

lemma web_Token_clients:
  "Clients (snd (web_Token db expires rndAccess rndRefresh r)) = Clients db \<and>
   ClientScopeProvided (snd (web_Token db expires rndAccess rndRefresh r)) = ClientScopeProvided db"
  by (simp add: web_Token_def Token_cases_clients split_beta split: sum.splits option.splits)

lemma AccessToken_Create_fresh:
  "fresh_access db (AccessToken.Token access) \<Longrightarrow>
     AccessToken_Create db expires access =
       (None, db\<lparr>AccessTokens := AccessTokens db @ [access\<lparr>Expires := expires\<rparr>]\<rparr>)"
  by (simp add: AccessToken_Create_def fresh_access_def)

lemma AccessToken_Create_conflict:
  "\<not> fresh_access db (AccessToken.Token access) \<Longrightarrow>
     AccessToken_Create db expires access = (Some ''duplicate key'', db)"
  by (simp add: AccessToken_Create_def fresh_access_def)

lemma Token_cases_success:
  "Token_authorization_code db expires rndAccess rndRefresh client body = (TokenJSON response, db2)
     \<Longrightarrow> access_token response = rndAccess \<and> fresh_access db rndAccess"
  "Token_refresh_token db expires rndAccess client body = (TokenJSON response, db2)
     \<Longrightarrow> access_token response = rndAccess \<and> fresh_access db rndAccess"
  "Token_password db expires rndAccess client body = (TokenJSON response, db2)
     \<Longrightarrow> access_token response = rndAccess \<and> fresh_access db rndAccess"
  "Token_client_credentials db expires rndAccess client body = (TokenJSON response, db2)
     \<Longrightarrow> access_token response = rndAccess \<and> fresh_access db rndAccess"
  by (auto simp: Token_authorization_code_def Token_refresh_token_def
      Token_password_def Token_client_credentials_def ExchangeCodeForTokens_def
      AccessToken_Create_def fresh_access_def Let_def
      split: option.splits if_splits)

lemma web_Token_success:
  "web_Token db expires rndAccess rndRefresh r = (TokenJSON response, db2)
     \<Longrightarrow> access_token response = rndAccess \<and> fresh_access db rndAccess"
  by (auto simp: web_Token_def split_beta dest: Token_cases_success
      split: sum.splits option.splits if_splits)

lemma Token_refresh_token_matching:
  assumes "GetRefreshToken db (TokenBody.RefreshToken body) = Some refresh"
    and "RefreshToken.ClientUUID refresh = Client.UUID client"
  shows "Token_refresh_token db expires rnd client body =
           (if fresh_access db rnd
            then (TokenJSON \<lparr>token_type = ''Bearer'', tokenResponse.scope = RefreshToken.Scope refresh,
                             access_token = rnd, refresh_token = None\<rparr>,
                  db\<lparr>AccessTokens := AccessTokens db @
                     [\<lparr>AccessToken.Token = rnd, AccessToken.Scope = RefreshToken.Scope refresh,
                       Expires = expires, AccessToken.ClientUUID = RefreshToken.ClientUUID refresh,
                       AccessToken.AccountUUID = Some (RefreshToken.AccountUUID refresh)\<rparr>]\<rparr>)
            else (ErrorJSON ''duplicate key'' 500, db))"
  using assms
  by (simp add: Token_refresh_token_def AccessToken_Create_fresh AccessToken_Create_conflict Let_def)

text \<open>
  The scope \<^verbatim>\<open>Token\<close> parses from the body is never the empty set: \<^verbatim>\<open>strings.Split\<close>
  yields at least one piece, so an empty scope string is the set that holds the empty
  name, which the test against the whitelist then decides.
\<close>

lemma strings_Split_not_Nil: "strings_Split s c \<noteq> []"
  by (induction s) (auto split: list.splits)

lemma requested_scope_not_empty: "requested_scope body \<noteq> {||}"
  using strings_Split_not_Nil[of "TokenBody.Scope body" "CHR '' ''"]
  by (cases "strings_Split (TokenBody.Scope body) CHR '' ''") (simp_all add: requested_scope_def NewStringSet_def)

text \<open>
  Claim C2. In an \<^verbatim>\<open>authorization_code\<close> exchange, when the exchange code resolves to a
  grant request whose client differs from the client that authenticated, the grant
  request is deleted and the error is the one returned when the code does not resolve at
  all, so the caller cannot tell a client mismatch from a code that does not exist. Here
  \<open>r\<close> is the request with the mismatch and \<open>r'\<close> a request whose code does not resolve.
\<close>

theorem Token_client_mismatch:
  assumes "authenticates db r body client"
    and "TokenBody.GrantType body = ''authorization_code''"
    and "GetGrantRequestByCode db (TokenBody.Code body) = Some request"
    and "GrantRequest.ClientUUID request \<noteq> Client.UUID client"
    and "authenticates db r' body' client'"
    and "TokenBody.GrantType body' = ''authorization_code''"
    and "GetGrantRequestByCode db (TokenBody.Code body') = None"
  shows "fst (web_Token db expires rndAccess rndRefresh r) = ErrorJSON ''Invalid grant code'' 401
       \<and> GrantRequests (snd (web_Token db expires rndAccess rndRefresh r))
           = filter (\<lambda>g. GrantRequest.Token g \<noteq> GrantRequest.Token request) (GrantRequests db)
       \<and> GetGrantRequest (snd (web_Token db expires rndAccess rndRefresh r))
            (GrantRequest.Token request) = None
       \<and> web_Token db expires' rndAccess' rndRefresh' r' = (ErrorJSON ''Invalid grant code'' 401, db)
       \<and> fst (web_Token db expires rndAccess rndRefresh r)
           = fst (web_Token db expires' rndAccess' rndRefresh' r')"
  using assms
  by (simp add: web_Token_authenticated Token_authorization_code_def GrantRequest_Delete_def
      GetGrantRequest_def find_filter_None)

text \<open>
  On the example data the second client presents the code of a grant request of the first
  client: the request is gone afterwards and the answer is that for an unknown code.
\<close>

theorem Token_client_mismatch_witness:
  "authenticates db_test (request_of ''wb'' ''secret-wb'' body_code) body_code wb_read
   \<and> GetGrantRequestByCode db_test (TokenBody.Code body_code) = Some request_alice
   \<and> GrantRequest.ClientUUID request_alice \<noteq> Client.UUID wb_read
   \<and> GetGrantRequestByCode db_test
        (TokenBody.Code (body_code\<lparr>TokenBody.Code := ''NOSUCHCODE''\<rparr>)) = None
   \<and> fst (web_Token db_test 500 ''A1'' ''R1'' (request_of ''wb'' ''secret-wb'' body_code))
       = ErrorJSON ''Invalid grant code'' 401
   \<and> GrantRequests (snd (web_Token db_test 500 ''A1'' ''R1''
         (request_of ''wb'' ''secret-wb'' body_code))) = []
   \<and> web_Token db_test 500 ''A1'' ''R1''
         (request_of ''gin'' ''secret'' (body_code\<lparr>TokenBody.Code := ''NOSUCHCODE''\<rparr>))
       = (ErrorJSON ''Invalid grant code'' 401, db_test)"
proof -
  let ?b = "body_code\<lparr>TokenBody.Code := ''NOSUCHCODE''\<rparr>"
  have f: "GetGrantRequestByCode db_test (TokenBody.Code body_code) = Some request_alice"
    by (simp add: body_code_fields db_test_code)
  have m: "GrantRequest.ClientUUID request_alice \<noteq> Client.UUID wb_read"
    by (simp add: request_alice_fields client_read_fields)
  have g: "TokenBody.GrantType ?b = ''authorization_code''"
    by (simp add: body_code_fields)
  have n: "GetGrantRequestByCode db_test (TokenBody.Code ?b) = None"
    by (simp add: GetGrantRequestByCode_def db_test_tables request_alice_fields)
  note t = Token_client_mismatch [OF authenticates_wb body_code_fields(1) f m
      authenticates_gin g n, of 500 "''A1''" "''R1''" 500 "''A1''" "''R1''"]
  have a: "fst (web_Token db_test 500 ''A1'' ''R1'' (request_of ''wb'' ''secret-wb'' body_code))
       = ErrorJSON ''Invalid grant code'' 401"
    using t by simp
  have b: "GrantRequests (snd (web_Token db_test 500 ''A1'' ''R1''
         (request_of ''wb'' ''secret-wb'' body_code))) = []"
    using t by (simp add: db_test_tables)
  have c: "web_Token db_test 500 ''A1'' ''R1'' (request_of ''gin'' ''secret'' ?b)
       = (ErrorJSON ''Invalid grant code'' 401, db_test)"
    using t by simp
  from authenticates_wb f m n a b c show ?thesis by (intro conjI)
qed

text \<open>
  Claim C1. An \<^verbatim>\<open>authorization_code\<close> exchange whose code resolves to a grant request of
  the authenticating client returns one access token and one refresh token, both stored
  with the scope the request asked for, which is the scope of the response as well, and
  deletes the grant request; any further redemption of the same code, by whatever client
  authenticates, fails with the error "Invalid grant code". The grant request carries an
  account (a code is issued after authentication only), the two token strings drawn from
  the random source are not in use, and the exchange code is that of this request alone.
\<close>

theorem Token_code_single_use:
  fixes db db' :: Database and expires :: int and rndAccess rndRefresh :: string
    and r :: TokenRequest
  assumes "authenticates db r body client"
    and "TokenBody.GrantType body = ''authorization_code''"
    and "GetGrantRequestByCode db (TokenBody.Code body) = Some request"
    and "GrantRequest.ClientUUID request = Client.UUID client"
    and "GrantRequest.AccountUUID request = Some account"
    and "fresh_access db rndAccess" and "fresh_refresh db rndRefresh"
    and "\<forall>g \<in> set (GrantRequests db).
           GrantRequest.Code g = Some (TokenBody.Code body) \<longrightarrow>
           GrantRequest.Token g = GrantRequest.Token request"
  defines "db' \<equiv> snd (web_Token db expires rndAccess rndRefresh r)"
  shows "fst (web_Token db expires rndAccess rndRefresh r) =
           TokenJSON \<lparr>token_type = ''Bearer'', tokenResponse.scope = ScopeRequested request,
                      access_token = rndAccess, refresh_token = Some rndRefresh\<rparr>
       \<and> AccessTokens db' = AccessTokens db @
             [\<lparr>AccessToken.Token = rndAccess, AccessToken.Scope = ScopeRequested request,
               Expires = expires, AccessToken.ClientUUID = GrantRequest.ClientUUID request,
               AccessToken.AccountUUID = Some account\<rparr>]
       \<and> RefreshTokens db' = RefreshTokens db @
             [\<lparr>RefreshToken.Token = rndRefresh, RefreshToken.Scope = ScopeRequested request,
               RefreshToken.ClientUUID = GrantRequest.ClientUUID request,
               RefreshToken.AccountUUID = account\<rparr>]
       \<and> GetGrantRequest db' (GrantRequest.Token request) = None
       \<and> GetGrantRequestByCode db' (TokenBody.Code body) = None
       \<and> (\<forall>r2 body2 client2 expires2 rnd2 rnd2'.
             authenticates db' r2 body2 client2 \<longrightarrow>
             TokenBody.GrantType body2 = ''authorization_code'' \<longrightarrow>
             TokenBody.Code body2 = TokenBody.Code body \<longrightarrow>
             web_Token db' expires2 rnd2 rnd2' r2 = (ErrorJSON ''Invalid grant code'' 401, db'))"
proof -
  have ex: "ExchangeCodeForTokens db expires rndAccess rndRefresh request =
    (Inr (rndAccess, rndRefresh),
     db\<lparr>AccessTokens := AccessTokens db @
             [\<lparr>AccessToken.Token = rndAccess, AccessToken.Scope = ScopeRequested request,
               Expires = expires, AccessToken.ClientUUID = GrantRequest.ClientUUID request,
               AccessToken.AccountUUID = Some account\<rparr>],
        RefreshTokens := RefreshTokens db @
             [\<lparr>RefreshToken.Token = rndRefresh, RefreshToken.Scope = ScopeRequested request,
               RefreshToken.ClientUUID = GrantRequest.ClientUUID request,
               RefreshToken.AccountUUID = account\<rparr>],
        GrantRequests := filter (\<lambda>g. GrantRequest.Token g \<noteq> GrantRequest.Token request)
                    (GrantRequests db)\<rparr>)"
    using assms(5,6,7) by (simp add: ExchangeCodeForTokens_def fresh_access_def fresh_refresh_def)
  have tok: "web_Token db expires rndAccess rndRefresh r =
     (TokenJSON \<lparr>token_type = ''Bearer'', tokenResponse.scope = ScopeRequested request,
                      access_token = rndAccess, refresh_token = Some rndRefresh\<rparr>,
      snd (ExchangeCodeForTokens db expires rndAccess rndRefresh request))"
    using assms(1-4) by (simp add: web_Token_authenticated Token_authorization_code_def ex)
  have gr: "GrantRequests db' = filter (\<lambda>g. GrantRequest.Token g \<noteq> GrantRequest.Token request)
                    (GrantRequests db)"
    by (simp add: db'_def tok ex)
  have gone: "GetGrantRequestByCode db' (TokenBody.Code body) = None"
    unfolding GetGrantRequestByCode_def gr
    by (rule find_filter_None) (use assms(8) in auto)
  have gone': "GetGrantRequest db' (GrantRequest.Token request) = None"
    unfolding GetGrantRequest_def gr by (rule find_filter_None) simp
  have second: "web_Token db' expires2 rnd2 rnd2' r2 = (ErrorJSON ''Invalid grant code'' 401, db')"
    if "authenticates db' r2 body2 client2" "TokenBody.GrantType body2 = ''authorization_code''"
       "TokenBody.Code body2 = TokenBody.Code body" for r2 body2 client2 expires2 rnd2 rnd2'
    using that gone by (simp add: web_Token_authenticated Token_authorization_code_def)
  show ?thesis
    using second gone gone' by (simp add: tok) (simp add: db'_def tok ex)
qed

text \<open>
  On the example data the first client redeems Alice's code and receives both tokens for
  the requested scope; a second redemption fails for this client and for the other one.
\<close>

theorem Token_code_single_use_witness:
  "authenticates db_test (request_of ''gin'' ''secret'' body_code) body_code gin_read
   \<and> GetGrantRequestByCode db_test (TokenBody.Code body_code) = Some request_alice
   \<and> fst (web_Token db_test 500 ''A1'' ''R1'' (request_of ''gin'' ''secret'' body_code))
       = TokenJSON \<lparr>token_type = ''Bearer'',
                    tokenResponse.scope = {|''account-read'', ''repo-read''|},
                    access_token = ''A1'', refresh_token = Some ''R1''\<rparr>
   \<and> fst (web_Token
            (snd (web_Token db_test 500 ''A1'' ''R1'' (request_of ''gin'' ''secret'' body_code)))
            600 ''A2'' ''R2'' (request_of ''gin'' ''secret'' body_code))
       = ErrorJSON ''Invalid grant code'' 401
   \<and> fst (web_Token
            (snd (web_Token db_test 500 ''A1'' ''R1'' (request_of ''gin'' ''secret'' body_code)))
            600 ''A2'' ''R2'' (request_of ''wb'' ''secret-wb'' body_code))
       = ErrorJSON ''Invalid grant code'' 401"
proof -
  let ?r = "request_of ''gin'' ''secret'' body_code"
  let ?d = "snd (web_Token db_test 500 ''A1'' ''R1'' ?r)"
  have f: "GetGrantRequestByCode db_test (TokenBody.Code body_code) = Some request_alice"
    by (simp add: body_code_fields db_test_code)
  have u: "\<forall>g \<in> set (GrantRequests db_test).
             GrantRequest.Code g = Some (TokenBody.Code body_code) \<longrightarrow>
             GrantRequest.Token g = GrantRequest.Token request_alice"
    by (simp add: db_test_tables)
  have m: "GrantRequest.ClientUUID request_alice = Client.UUID gin_read"
    by (simp add: request_alice_fields client_read_fields)
  note t = Token_code_single_use [OF authenticates_gin body_code_fields(1) f m
      request_alice_fields(4) db_test_fresh u, of 500]
  have g2: "authenticates ?d ?r body_code gin_read"
    using authenticates_gin [of body_code] authenticates_cong [of ?d db_test ?r body_code gin_read]
    by (simp add: web_Token_clients)
  have w2: "authenticates ?d (request_of ''wb'' ''secret-wb'' body_code) body_code wb_read"
    using authenticates_wb [of body_code]
      authenticates_cong [of ?d db_test "request_of ''wb'' ''secret-wb'' body_code" body_code wb_read]
    by (simp add: web_Token_clients)
  have a: "fst (web_Token db_test 500 ''A1'' ''R1'' ?r)
       = TokenJSON \<lparr>token_type = ''Bearer'',
                    tokenResponse.scope = {|''account-read'', ''repo-read''|},
                    access_token = ''A1'', refresh_token = Some ''R1''\<rparr>"
    using t by (simp add: request_alice_fields)
  from t have q: "\<forall>r2 body2 client2 expires2 rnd2 rnd2'.
             authenticates ?d r2 body2 client2 \<longrightarrow>
             TokenBody.GrantType body2 = ''authorization_code'' \<longrightarrow>
             TokenBody.Code body2 = TokenBody.Code body_code \<longrightarrow>
             web_Token ?d expires2 rnd2 rnd2' r2 = (ErrorJSON ''Invalid grant code'' 401, ?d)"
    by (elim conjE)
  have b: "fst (web_Token ?d 600 ''A2'' ''R2'' ?r) = ErrorJSON ''Invalid grant code'' 401"
    using q [rule_format, OF g2 body_code_fields(1) refl, of 600 "''A2''" "''R2''"] by simp
  have c: "fst (web_Token ?d 600 ''A2'' ''R2'' (request_of ''wb'' ''secret-wb'' body_code))
       = ErrorJSON ''Invalid grant code'' 401"
    using q [rule_format, OF w2 body_code_fields(1) refl, of 600 "''A2''" "''R2''"] by simp
  from authenticates_gin f a b c show ?thesis by (intro conjI)
qed

text \<open>
  Claim C3. A \<^verbatim>\<open>refresh_token\<close> exchange whose refresh token resolves and belongs to the
  authenticating client creates a new access token with exactly the scope, account and
  client of the refresh token; the refresh token is neither deleted nor changed, so it
  resolves again and a further exchange succeeds; and no later token request, of whatever
  grant type, that succeeds on the resulting database returns the access token of this
  exchange again. The token string drawn from the random source is not in use.
\<close>

theorem Token_refresh_not_rotated:
  fixes db db' :: Database and expires :: int and rndAccess rndRefresh :: string
    and r :: TokenRequest
  assumes "authenticates db r body client"
    and "TokenBody.GrantType body = ''refresh_token''"
    and "GetRefreshToken db (TokenBody.RefreshToken body) = Some refresh"
    and "RefreshToken.ClientUUID refresh = Client.UUID client"
    and "fresh_access db rndAccess"
  defines "db' \<equiv> snd (web_Token db expires rndAccess rndRefresh r)"
  shows "fst (web_Token db expires rndAccess rndRefresh r) =
           TokenJSON \<lparr>token_type = ''Bearer'', tokenResponse.scope = RefreshToken.Scope refresh,
                      access_token = rndAccess, refresh_token = None\<rparr>
       \<and> db' = db\<lparr>AccessTokens := AccessTokens db @
             [\<lparr>AccessToken.Token = rndAccess, AccessToken.Scope = RefreshToken.Scope refresh,
               Expires = expires, AccessToken.ClientUUID = RefreshToken.ClientUUID refresh,
               AccessToken.AccountUUID = Some (RefreshToken.AccountUUID refresh)\<rparr>]\<rparr>
       \<and> RefreshTokens db' = RefreshTokens db
       \<and> GetRefreshToken db' (TokenBody.RefreshToken body) = Some refresh
       \<and> (\<forall>expires2 rnd2 rnd2'.
             fresh_access db' rnd2 \<longrightarrow>
             fst (web_Token db' expires2 rnd2 rnd2' r) =
               TokenJSON \<lparr>token_type = ''Bearer'', tokenResponse.scope = RefreshToken.Scope refresh,
                          access_token = rnd2, refresh_token = None\<rparr>
             \<and> RefreshTokens (snd (web_Token db' expires2 rnd2 rnd2' r)) = RefreshTokens db)
       \<and> (\<forall>r2 expires2 rnd2 rnd2' response2 db2.
             web_Token db' expires2 rnd2 rnd2' r2 = (TokenJSON response2, db2) \<longrightarrow>
             access_token response2 \<noteq> rndAccess)"
proof -
  have first: "web_Token db expires rndAccess rndRefresh r =
      (TokenJSON \<lparr>token_type = ''Bearer'', tokenResponse.scope = RefreshToken.Scope refresh,
                      access_token = rndAccess, refresh_token = None\<rparr>,
       db\<lparr>AccessTokens := AccessTokens db @
             [\<lparr>AccessToken.Token = rndAccess, AccessToken.Scope = RefreshToken.Scope refresh,
               Expires = expires, AccessToken.ClientUUID = RefreshToken.ClientUUID refresh,
               AccessToken.AccountUUID = Some (RefreshToken.AccountUUID refresh)\<rparr>]\<rparr>)"
    using assms(1-5) by (simp add: web_Token_authenticated Token_refresh_token_matching)
  have db': "db' = db\<lparr>AccessTokens := AccessTokens db @
             [\<lparr>AccessToken.Token = rndAccess, AccessToken.Scope = RefreshToken.Scope refresh,
               Expires = expires, AccessToken.ClientUUID = RefreshToken.ClientUUID refresh,
               AccessToken.AccountUUID = Some (RefreshToken.AccountUUID refresh)\<rparr>]\<rparr>"
    by (simp add: db'_def first)
  have auth': "authenticates db' r body client"
    using assms(1) authenticates_cong[of db' db r body client] by (simp add: db')
  have ref': "GetRefreshToken db' (TokenBody.RefreshToken body) = Some refresh"
    using assms(3) by (simp add: GetRefreshToken_def db')
  have second: "web_Token db' expires2 rnd2 rnd2' r =
      (if fresh_access db' rnd2
       then (TokenJSON \<lparr>token_type = ''Bearer'', tokenResponse.scope = RefreshToken.Scope refresh,
                             access_token = rnd2, refresh_token = None\<rparr>,
             db'\<lparr>AccessTokens := AccessTokens db' @
                     [\<lparr>AccessToken.Token = rnd2, AccessToken.Scope = RefreshToken.Scope refresh,
                       Expires = expires2, AccessToken.ClientUUID = RefreshToken.ClientUUID refresh,
                       AccessToken.AccountUUID = Some (RefreshToken.AccountUUID refresh)\<rparr>]\<rparr>)
       else (ErrorJSON ''duplicate key'' 500, db'))" for expires2 rnd2 rnd2'
    using assms(2,4) by (simp add: web_Token_authenticated[OF auth'] Token_refresh_token_matching[OF ref'])
  have stored: "\<not> fresh_access db' rndAccess"
    by (simp add: fresh_access_def db' find_append_one split: option.splits)
  have distinct: "access_token response2 \<noteq> rndAccess"
    if "web_Token db' expires2 rnd2 rnd2' r2 = (TokenJSON response2, db2)"
    for r2 expires2 rnd2 rnd2' response2 db2
    using web_Token_success[OF that] stored by auto
  have again: "fst (web_Token db' expires2 rnd2 rnd2' r) =
               TokenJSON \<lparr>token_type = ''Bearer'', tokenResponse.scope = RefreshToken.Scope refresh,
                          access_token = rnd2, refresh_token = None\<rparr>
             \<and> RefreshTokens (snd (web_Token db' expires2 rnd2 rnd2' r)) = RefreshTokens db"
    if "fresh_access db' rnd2" for expires2 rnd2 rnd2'
    using that unfolding second by (simp add: db')
  have rt: "RefreshTokens db' = RefreshTokens db" by (simp add: db')
  show ?thesis
    using first db' rt ref' again distinct by (intro conjI allI impI) simp_all
qed

text \<open>
  On the example data Alice's refresh token is exchanged twice, for two different access
  tokens of its scope, and is still there after the first exchange.
\<close>

theorem Token_refresh_not_rotated_witness:
  "authenticates db_test (request_of ''gin'' ''secret'' body_refresh) body_refresh gin_read
   \<and> GetRefreshToken db_test (TokenBody.RefreshToken body_refresh) = Some refresh_alice
   \<and> fresh_access db_test ''A1''
   \<and> fst (web_Token db_test 500 ''A1'' [] (request_of ''gin'' ''secret'' body_refresh))
       = TokenJSON \<lparr>token_type = ''Bearer'', tokenResponse.scope = {|''repo-read''|},
                    access_token = ''A1'', refresh_token = None\<rparr>
   \<and> GetRefreshToken
        (snd (web_Token db_test 500 ''A1'' [] (request_of ''gin'' ''secret'' body_refresh)))
        (TokenBody.RefreshToken body_refresh) = Some refresh_alice
   \<and> fst (web_Token
            (snd (web_Token db_test 500 ''A1'' [] (request_of ''gin'' ''secret'' body_refresh)))
            600 ''A2'' [] (request_of ''gin'' ''secret'' body_refresh))
       = TokenJSON \<lparr>token_type = ''Bearer'', tokenResponse.scope = {|''repo-read''|},
                    access_token = ''A2'', refresh_token = None\<rparr>"
proof -
  let ?r = "request_of ''gin'' ''secret'' body_refresh"
  let ?d = "snd (web_Token db_test 500 ''A1'' [] ?r)"
  have f: "GetRefreshToken db_test (TokenBody.RefreshToken body_refresh) = Some refresh_alice"
    by (simp add: body_refresh_fields db_test_refresh)
  have m: "RefreshToken.ClientUUID refresh_alice = Client.UUID gin_read"
    by (simp add: refresh_alice_def client_read_fields)
  note t = Token_refresh_not_rotated [OF authenticates_gin body_refresh_fields(1) f m
      db_test_fresh(1), of 500 "[]"]
  have sc: "RefreshToken.Scope refresh_alice = {|''repo-read''|}"
    by (simp add: refresh_alice_def)
  have a: "fst (web_Token db_test 500 ''A1'' [] ?r)
       = TokenJSON \<lparr>token_type = ''Bearer'', tokenResponse.scope = {|''repo-read''|},
                    access_token = ''A1'', refresh_token = None\<rparr>"
    using t [THEN conjunct1] by (simp add: sc)
  from t have b: "GetRefreshToken ?d (TokenBody.RefreshToken body_refresh) = Some refresh_alice"
    by (elim conjE)
  from t have d: "?d = db_test\<lparr>AccessTokens := AccessTokens db_test @
             [\<lparr>AccessToken.Token = ''A1'', AccessToken.Scope = RefreshToken.Scope refresh_alice,
               Expires = 500, AccessToken.ClientUUID = RefreshToken.ClientUUID refresh_alice,
               AccessToken.AccountUUID = Some (RefreshToken.AccountUUID refresh_alice)\<rparr>]\<rparr>"
    by (elim conjE)
  have fr: "fresh_access ?d ''A2''"
    unfolding d by (simp add: fresh_access_def db_test_tables token_alice_def)
  from t have q: "\<forall>expires2 rnd2 rnd2'.
             fresh_access ?d rnd2 \<longrightarrow>
             fst (web_Token ?d expires2 rnd2 rnd2' ?r) =
               TokenJSON \<lparr>token_type = ''Bearer'',
                          tokenResponse.scope = RefreshToken.Scope refresh_alice,
                          access_token = rnd2, refresh_token = None\<rparr>
             \<and> RefreshTokens (snd (web_Token ?d expires2 rnd2 rnd2' ?r)) = RefreshTokens db_test"
    by (elim conjE)
  have c: "fst (web_Token ?d 600 ''A2'' [] ?r)
       = TokenJSON \<lparr>token_type = ''Bearer'', tokenResponse.scope = {|''repo-read''|},
                    access_token = ''A2'', refresh_token = None\<rparr>"
    using q [rule_format, OF fr, of 600 "[]"] by (simp add: sc)
  from authenticates_gin f db_test_fresh(1) a b c show ?thesis by (intro conjI)
qed



section \<open>Consent\<close>

lemma Client_Approve_frame:
  "snd (Client_Approve db c a s) =
     db\<lparr>ClientApprovals := ClientApprovals (snd (Client_Approve db c a s))\<rparr>"
  by (simp add: Client_Approve_def ClientApproval_Update_def ClientApproval_Create_def
      split: option.splits)

lemma Client_Approve_fields:
  "Clients (snd (Client_Approve db c a s)) = Clients db"
  "GrantRequests (snd (Client_Approve db c a s)) = GrantRequests db"
  "AccessTokens (snd (Client_Approve db c a s)) = AccessTokens db"
  by (subst Client_Approve_frame, simp)+

lemma GrantRequest_Client_cong:
  assumes "Clients db' = Clients db" and "ClientScopeProvided db' = ClientScopeProvided db"
  shows "GrantRequest_Client db' request = GrantRequest_Client db request"
  unfolding GrantRequest_Client_def GetClient_def getClient_def assms ..

lemma approved_scope_cong:
  "ClientApprovals db' = ClientApprovals db \<Longrightarrow> approved_scope db' c a = approved_scope db c a"
  by (simp add: approved_scope_def ApprovalForAccount_def)

lemma IsApproved_after_Approve:
  assumes "GrantRequest_Client db request = Some client"
    and "GrantRequest.AccountUUID request = Some account"
    and "CheckScope db (ScopeRequested request)"
  shows "GrantRequest_IsApproved (snd (Client_Approve db client account (ScopeRequested request)))
           request = Some True"
proof -
  let ?d = "snd (Client_Approve db client account (ScopeRequested request))"
  have c: "GrantRequest_Client ?d request = Some client"
    using assms(1) GrantRequest_Client_cong[of ?d db request]
    by (simp add: Client_Approve_fields Client_Approve_tables)
  have "approved_scope ?d client account = approved_scope db client account |\<union>| ScopeRequested request"
    by (rule Client_Approve_valid_scope[OF assms(3)])
  moreover have "ApprovalForAccount ?d client account \<noteq> None"
    using Client_Approve_valid_lookup[OF assms(3), of client account] by (simp split: option.splits)
  ultimately obtain ap where ap: "ApprovalForAccount ?d client account = Some ap"
    and sc: "ScopeRequested request |\<subseteq>| ClientApproval.Scope ap"
    by (auto simp: approved_scope_def)
  from sc have "ScopeRequested request |-| ScopeWhitelist client |\<subseteq>| ClientApproval.Scope ap"
    by auto
  then show ?thesis
    using c ap assms(2)
    by (simp add: GrantRequest_IsApproved_def StringSet_Difference_def StringSet_IsSuperset_def Let_def)
qed

lemma finishCodeRequest_eq:
  "finishCodeRequest db rnd request =
     (RedirectCode (RedirectURI request) (ScopeRequested request) (State request) rnd,
      db\<lparr>GrantRequests :=
           map (\<lambda>g. if GrantRequest.Token g = GrantRequest.Token request
                     then request\<lparr>GrantRequest.Code := Some rnd\<rparr> else g) (GrantRequests db)\<rparr>)"
  by (simp add: finishCodeRequest_def GrantRequest_Update_def Let_def)

lemma finishImplicitRequest_eq:
  "finishImplicitRequest db expires rnd request =
     (if fresh_access db rnd
      then (RedirectToken (RedirectURI request) (ScopeRequested request) (State request) rnd,
            db\<lparr>GrantRequests :=
                  filter (\<lambda>g. GrantRequest.Token g \<noteq> GrantRequest.Token request) (GrantRequests db),
               AccessTokens := AccessTokens db @
                 [\<lparr>AccessToken.Token = rnd, AccessToken.Scope = ScopeRequested request,
                   Expires = expires, AccessToken.ClientUUID = GrantRequest.ClientUUID request,
                   AccessToken.AccountUUID = GrantRequest.AccountUUID request\<rparr>]\<rparr>)
      else (Panic, db\<lparr>GrantRequests :=
                  filter (\<lambda>g. GrantRequest.Token g \<noteq> GrantRequest.Token request) (GrantRequests db)\<rparr>))"
  by (simp add: finishImplicitRequest_def GrantRequest_Delete_def AccessToken_Create_def
      fresh_access_def Let_def)

lemma web_Approve_authenticated:
  assumes "GetGrantRequest db (RequestID param) = Some request"
    and "GrantRequest.AccountUUID request = Some account"
    and "GrantRequest_Client db request = Some client"
  shows "web_Approve db expires rnd param =
     (if \<not> StringSet_Difference (ScopeRequested request) (ScopeWhitelist client)
              |\<subseteq>| NewStringSet (ApproveForm.Scope param)
      then (ErrorHTML ''Requested scope was not approved'' 401, db)
      else if \<not> CheckScope db (ScopeRequested request) then (Panic, db)
      else if GrantRequest.GrantType request = ''code''
      then finishCodeRequest (snd (Client_Approve db client account (ScopeRequested request))) rnd request
      else finishImplicitRequest (snd (Client_Approve db client account (ScopeRequested request)))
             expires rnd request)"
proof (cases "CheckScope db (ScopeRequested request)")
  case False
  then show ?thesis
    using assms
    by (simp add: web_Approve_def Client_Approve_invalid StringSet_IsSuperset_def Let_def)
next
  case True
  obtain d where d: "Client_Approve db client account (ScopeRequested request) = (None, d)"
    using Client_Approve_valid_err[OF True, of client account]
    by (cases "Client_Approve db client account (ScopeRequested request)") simp
  have "GrantRequest_IsApproved d request = Some True"
    using IsApproved_after_Approve[OF assms(3,2) True] by (simp add: d)
  then show ?thesis
    using assms True
    by (simp add: web_Approve_def d StringSet_IsSuperset_def Let_def)
qed

text \<open>
  Claim C6. For an authenticated grant request the consent handler fails with the error
  "Requested scope was not approved" whenever the scope the user approved is not a
  superset of the requested scope without the client's whitelist; and when it succeeds,
  the approval ledger holds, for the client and the account, the stored scope together
  with the full requested scope of the request, not only the part that needed consent.
  It does succeed when the approved scope covers the required part and the requested
  scope is valid, for the code flow, and for the implicit flow when the token string
  drawn is not in use.
\<close>

theorem web_Approve_records_requested_scope:
  assumes "GetGrantRequest db (RequestID param) = Some request"
    and "GrantRequest.AccountUUID request = Some account"
    and "GrantRequest_Client db request = Some client"
  shows "(\<not> StringSet_Difference (ScopeRequested request) (ScopeWhitelist client)
              |\<subseteq>| NewStringSet (ApproveForm.Scope param) \<longrightarrow>
            web_Approve db expires rnd param =
              (ErrorHTML ''Requested scope was not approved'' 401, db))
       \<and> (is_redirect (fst (web_Approve db expires rnd param)) \<longrightarrow>
            approved_scope (snd (web_Approve db expires rnd param)) client account
              = approved_scope db client account |\<union>| ScopeRequested request
          \<and> ScopeRequested request
              |\<subseteq>| approved_scope (snd (web_Approve db expires rnd param)) client account)
       \<and> (StringSet_Difference (ScopeRequested request) (ScopeWhitelist client)
              |\<subseteq>| NewStringSet (ApproveForm.Scope param) \<longrightarrow>
          CheckScope db (ScopeRequested request) \<longrightarrow>
          GrantRequest.GrantType request = ''code'' \<or> fresh_access db rnd \<longrightarrow>
            is_redirect (fst (web_Approve db expires rnd param)))"
proof -
  let ?d = "snd (Client_Approve db client account (ScopeRequested request))"
  note eq = web_Approve_authenticated[OF assms, of expires rnd]
  have led: "approved_scope ?d client account = approved_scope db client account |\<union>| ScopeRequested request"
    if "CheckScope db (ScopeRequested request)"
    by (rule Client_Approve_valid_scope[OF that])
  have fc: "approved_scope (snd (finishCodeRequest ?d rnd request)) client account
              = approved_scope ?d client account"
    by (rule approved_scope_cong) (simp add: finishCodeRequest_eq)
  have fi: "approved_scope (snd (finishImplicitRequest ?d expires rnd request)) client account
              = approved_scope ?d client account"
    by (rule approved_scope_cong) (simp add: finishImplicitRequest_eq)
  have fr: "fresh_access ?d rnd = fresh_access db rnd"
    by (simp add: fresh_access_def Client_Approve_fields)
  have a: "\<not> StringSet_Difference (ScopeRequested request) (ScopeWhitelist client)
              |\<subseteq>| NewStringSet (ApproveForm.Scope param) \<longrightarrow>
            web_Approve db expires rnd param =
              (ErrorHTML ''Requested scope was not approved'' 401, db)"
    by (simp add: eq)
  have b: "approved_scope (snd (web_Approve db expires rnd param)) client account
              = approved_scope db client account |\<union>| ScopeRequested request"
    if "is_redirect (fst (web_Approve db expires rnd param))"
    using that unfolding eq
    by (simp add: is_redirect_def fc fi led split: if_splits)
  have c: "is_redirect (fst (web_Approve db expires rnd param))"
    if "StringSet_Difference (ScopeRequested request) (ScopeWhitelist client)
              |\<subseteq>| NewStringSet (ApproveForm.Scope param)"
      "CheckScope db (ScopeRequested request)"
      "GrantRequest.GrantType request = ''code'' \<or> fresh_access db rnd"
    using that unfolding eq
    by (auto simp: is_redirect_def finishCodeRequest_eq finishImplicitRequest_eq fr)
  show ?thesis
    using a b c by (intro conjI impI) auto
qed

text \<open>
  On the example data Alice's request asks for \<open>account-read\<close>, which is whitelisted, and
  \<open>repo-read\<close>. Approving only \<open>account-read\<close> fails; approving \<open>repo-read\<close> succeeds and the
  ledger then holds \<open>account-read\<close> as well.
\<close>

theorem web_Approve_records_requested_scope_witness:
  "GetGrantRequest db_test (RequestID (approve_form [''repo-read''])) = Some request_alice
   \<and> GrantRequest.AccountUUID request_alice = Some ''u-alice''
   \<and> GrantRequest_Client db_test request_alice = Some gin_read
   \<and> StringSet_Difference (ScopeRequested request_alice) (ScopeWhitelist gin_read) = {|''repo-read''|}
   \<and> web_Approve db_test 500 ''C0DE'' (approve_form [''account-read''])
       = (ErrorHTML ''Requested scope was not approved'' 401, db_test)
   \<and> is_redirect (fst (web_Approve db_test 500 ''C0DE'' (approve_form [''repo-read''])))
   \<and> approved_scope (snd (web_Approve db_test 500 ''C0DE'' (approve_form [''repo-read''])))
        gin_read ''u-alice''
       = {|''account-write'', ''account-read'', ''repo-read''|}"
proof -
  have dif: "StringSet_Difference (ScopeRequested request_alice) (ScopeWhitelist gin_read)
       = {|''repo-read''|}"
    by (simp add: StringSet_Difference_def request_alice_fields client_read_fields)
  note t = web_Approve_records_requested_scope [OF db_test_request(1) request_alice_fields(4)
      db_test_request(2), of _ 500 "''C0DE''"]
  have a: "web_Approve db_test 500 ''C0DE'' (approve_form [''account-read''])
       = (ErrorHTML ''Requested scope was not approved'' 401, db_test)"
    using t [of "[''account-read'']", THEN conjunct1]
    by (simp add: dif approve_form_def NewStringSet_def)
  have h1: "StringSet_Difference (ScopeRequested request_alice) (ScopeWhitelist gin_read)
              |\<subseteq>| NewStringSet (ApproveForm.Scope (approve_form [''repo-read'']))"
    by (simp add: dif approve_form_def NewStringSet_def)
  have h3: "GrantRequest.GrantType request_alice = ''code'' \<or> fresh_access db_test ''C0DE''"
    by (simp add: request_alice_fields)
  have b: "is_redirect (fst (web_Approve db_test 500 ''C0DE'' (approve_form [''repo-read''])))"
    by (rule t [of "[''repo-read'']", THEN conjunct2, THEN conjunct2, rule_format,
          OF h1 db_test_valid_request h3])
  have e: "approved_scope db_test gin_read ''u-alice'' = {|''account-write''|}"
    by (simp add: approved_scope_def ApprovalForAccount_def db_test_def client_read_fields)
  have c: "approved_scope (snd (web_Approve db_test 500 ''C0DE'' (approve_form [''repo-read''])))
        gin_read ''u-alice''
       = {|''account-write'', ''account-read'', ''repo-read''|}"
    using t [of "[''repo-read'']", THEN conjunct2, THEN conjunct1, rule_format, OF b,
        THEN conjunct1]
    by (simp add: e request_alice_fields finsert_commute)
  from db_test_request request_alice_fields(4) dif a b c show ?thesis by (intro conjI)
qed

end
